theory Spec2Isabelle
  imports Main "HOL-Library.Word" "HOL-Library.Monad_Syntax"
begin

unbundle bit_operations_syntax

section \<open>Machine types and the record buffer\<close>

text \<open>
  The file under verification is \<^verbatim>\<open>fs/ntfs3/record.c\<close>. It works on one MFT record: a
  buffer of \<^verbatim>\<open>sbi->record_size\<close> bytes (\<^verbatim>\<open>mi->mrec\<close>) that holds a header and, packed
  behind it, the attribute entries. The C code reads and writes the buffer through struct
  pointers and moves parts of it with \<^verbatim>\<open>memmove\<close>; the model keeps the buffer as a list of
  bytes and a pointer into it as the byte offset from \<^verbatim>\<open>rec\<close>.

  Every function of the model returns an \<open>option\<close>. \<open>None\<close> means that the C call has no
  defined result: it dereferences \<^verbatim>\<open>mi->mrec\<close> while that is \<^verbatim>\<open>NULL\<close>, or it touches
  memory outside the record buffer, or (for the one loop that can do so) it never ends.
  A C return value \<open>r\<close> is \<open>Some r\<close>; a returned \<^verbatim>\<open>ATTRIB *\<close> is a \<open>nat option\<close>, with
  \<open>None\<close> for \<^verbatim>\<open>NULL\<close>.
\<close>

type_synonym u8 = "8 word"
type_synonym u16 = "16 word"
type_synonym u32 = "32 word"
type_synonym u64 = "64 word"
type_synonym bytes = "8 word list"

text \<open>\<^verbatim>\<open>CLST\<close> is \<^verbatim>\<open>u32\<close> unless the kernel is configured with 64-bit clusters; the model takes
  the default.\<close>

type_synonym CLST = "32 word"

definition load :: "bytes \<Rightarrow> nat \<Rightarrow> nat \<Rightarrow> bytes option" where
  "load m p n = (if p + n \<le> length m then Some (take n (drop p m)) else None)"

definition store :: "bytes \<Rightarrow> nat \<Rightarrow> bytes \<Rightarrow> bytes option" where
  "store m p bs =
     (if p + length bs \<le> length m then Some (take p m @ bs @ drop (p + length bs) m)
      else None)"

text \<open>\<^verbatim>\<open>memmove\<close> and \<^verbatim>\<open>memset\<close>. The C code computes some of their arguments in signed
  arithmetic, so they take integers; a negative address or count (which as a \<^verbatim>\<open>size_t\<close> is
  larger than any buffer) is outside the buffer.\<close>

definition memmove :: "bytes \<Rightarrow> int \<Rightarrow> int \<Rightarrow> int \<Rightarrow> bytes option" where
  "memmove m dst src n =
     (if dst < 0 \<or> src < 0 \<or> n < 0 then None
      else do { bs \<leftarrow> load m (nat src) (nat n); store m (nat dst) bs })"

definition memset :: "bytes \<Rightarrow> int \<Rightarrow> u8 \<Rightarrow> int \<Rightarrow> bytes option" where
  "memset m p c n =
     (if p < 0 \<or> n < 0 then None else store m (nat p) (replicate (nat n) c))"

subsection \<open>Little-endian fields\<close>

definition le16_of :: "bytes \<Rightarrow> u16" where
  "le16_of bs = ucast (bs ! 0) OR push_bit 8 (ucast (bs ! 1))"

definition to_le16 :: "u16 \<Rightarrow> bytes" where
  "to_le16 v = [ucast v, ucast (drop_bit 8 v)]"

definition le32_of :: "bytes \<Rightarrow> u32" where
  "le32_of bs = ucast (bs ! 0) OR push_bit 8 (ucast (bs ! 1))
     OR push_bit 16 (ucast (bs ! 2)) OR push_bit 24 (ucast (bs ! 3))"

definition to_le32 :: "u32 \<Rightarrow> bytes" where
  "to_le32 v = [ucast v, ucast (drop_bit 8 v), ucast (drop_bit 16 v), ucast (drop_bit 24 v)]"

definition le64_of :: "bytes \<Rightarrow> u64" where
  "le64_of bs = ucast (le32_of (take 4 bs)) OR push_bit 32 (ucast (le32_of (drop 4 bs)))"

definition to_le64 :: "u64 \<Rightarrow> bytes" where
  "to_le64 v = to_le32 (ucast v) @ to_le32 (ucast (drop_bit 32 v))"

definition rd8 :: "bytes \<Rightarrow> nat \<Rightarrow> u8 option" where
  "rd8 m p = map_option (\<lambda>bs. bs ! 0) (load m p 1)"

definition rd16 :: "bytes \<Rightarrow> nat \<Rightarrow> u16 option" where
  "rd16 m p = map_option le16_of (load m p 2)"

definition rd32 :: "bytes \<Rightarrow> nat \<Rightarrow> u32 option" where
  "rd32 m p = map_option le32_of (load m p 4)"

definition rd64 :: "bytes \<Rightarrow> nat \<Rightarrow> u64 option" where
  "rd64 m p = map_option le64_of (load m p 8)"

definition wr8 :: "bytes \<Rightarrow> nat \<Rightarrow> u8 \<Rightarrow> bytes option" where
  "wr8 m p v = store m p [v]"

definition wr16 :: "bytes \<Rightarrow> nat \<Rightarrow> u16 \<Rightarrow> bytes option" where
  "wr16 m p v = store m p (to_le16 v)"

definition wr32 :: "bytes \<Rightarrow> nat \<Rightarrow> u32 \<Rightarrow> bytes option" where
  "wr32 m p v = store m p (to_le32 v)"

definition wr64 :: "bytes \<Rightarrow> nat \<Rightarrow> u64 \<Rightarrow> bytes option" where
  "wr64 m p v = store m p (to_le64 v)"

section \<open>Declarations of ntfs.h\<close>

text \<open>
  Modelled from the spec: the header \<^verbatim>\<open>ntfs.h\<close>, which declares \<^verbatim>\<open>MFT_REC\<close>, \<^verbatim>\<open>ATTRIB\<close> and
  the macros below, is not among the sources. The field order and widths are those of the
  spec's on-disk layout (section 6), at the offsets of the NTFS on-disk format; the macros
  are the alignment, flag and size tests the spec describes (quad alignment is a multiple
  of 8, the in-use state is a bit of the record's flags, the end marker is the type
  \<^verbatim>\<open>0xFFFFFFFF\<close>).
\<close>

definition SIZEOF_RESIDENT :: u32 where "SIZEOF_RESIDENT = 0x18"
definition SIZEOF_NONRESIDENT :: u32 where "SIZEOF_NONRESIDENT = 0x40"
definition SIZEOF_NONRESIDENT_EX :: u32 where "SIZEOF_NONRESIDENT_EX = 0x48"
definition MFTRECORD_FIXUP_OFFSET_1 :: u32 where "MFTRECORD_FIXUP_OFFSET_1 = 0x2A"
definition ATTR_END :: u32 where "ATTR_END = 0xFFFFFFFF"
definition RECORD_FLAG_IN_USE :: u16 where "RECORD_FLAG_IN_USE = 0x0001"
definition NTFS_FILE_SIGNATURE :: u32 where "NTFS_FILE_SIGNATURE = 0x454C4946"
definition MFT_REC_MFT :: CLST where "MFT_REC_MFT = 0"

definition QuadAlign :: "u32 \<Rightarrow> u32" where
  "QuadAlign n = (n + 7) AND NOT 7"

definition IsDwordAligned :: "u32 \<Rightarrow> bool" where
  "IsDwordAligned n \<longleftrightarrow> n AND 3 = 0"

text \<open>\<^verbatim>\<open>PtrOffset(rec, attr)\<close> assigned to a \<^verbatim>\<open>u32\<close>: the pointer difference, truncated.\<close>

definition PtrOffset :: "nat \<Rightarrow> u32" where
  "PtrOffset p = of_nat p"

record mft_inode =
  rno :: CLST
  mrec :: "bytes option"
  dirty :: bool
  nbufs :: u32

text \<open>Fields of \<^verbatim>\<open>MFT_REC\<close>, read through \<^verbatim>\<open>mi->mrec\<close>.\<close>

definition rec_sign :: "mft_inode \<Rightarrow> u32 option" where
  "rec_sign mi = do { m \<leftarrow> mrec mi; rd32 m 0x00 }"

definition rec_seqnum :: "mft_inode \<Rightarrow> u16 option" where
  "rec_seqnum mi = do { m \<leftarrow> mrec mi; rd16 m 0x10 }"

definition rec_attr_off :: "mft_inode \<Rightarrow> u16 option" where
  "rec_attr_off mi = do { m \<leftarrow> mrec mi; rd16 m 0x14 }"

definition rec_flags :: "mft_inode \<Rightarrow> u16 option" where
  "rec_flags mi = do { m \<leftarrow> mrec mi; rd16 m 0x16 }"

definition rec_used :: "mft_inode \<Rightarrow> u32 option" where
  "rec_used mi = do { m \<leftarrow> mrec mi; rd32 m 0x18 }"

definition rec_total :: "mft_inode \<Rightarrow> u32 option" where
  "rec_total mi = do { m \<leftarrow> mrec mi; rd32 m 0x1C }"

definition rec_next_attr_id :: "mft_inode \<Rightarrow> u16 option" where
  "rec_next_attr_id mi = do { m \<leftarrow> mrec mi; rd16 m 0x28 }"

definition set_rec_seq :: "mft_inode \<Rightarrow> u16 \<Rightarrow> mft_inode option" where
  "set_rec_seq mi v = do { m \<leftarrow> mrec mi; m' \<leftarrow> wr16 m 0x10 v; Some (mi\<lparr>mrec := Some m'\<rparr>) }"

definition set_rec_flags :: "mft_inode \<Rightarrow> u16 \<Rightarrow> mft_inode option" where
  "set_rec_flags mi v = do { m \<leftarrow> mrec mi; m' \<leftarrow> wr16 m 0x16 v; Some (mi\<lparr>mrec := Some m'\<rparr>) }"

definition set_rec_used :: "mft_inode \<Rightarrow> u32 \<Rightarrow> mft_inode option" where
  "set_rec_used mi v = do { m \<leftarrow> mrec mi; m' \<leftarrow> wr32 m 0x18 v; Some (mi\<lparr>mrec := Some m'\<rparr>) }"

definition set_rec_next_attr_id :: "mft_inode \<Rightarrow> u16 \<Rightarrow> mft_inode option" where
  "set_rec_next_attr_id mi v =
     do { m \<leftarrow> mrec mi; m' \<leftarrow> wr16 m 0x28 v; Some (mi\<lparr>mrec := Some m'\<rparr>) }"

definition is_rec_inuse :: "mft_inode \<Rightarrow> bool option" where
  "is_rec_inuse mi = do { f \<leftarrow> rec_flags mi; Some (f AND RECORD_FLAG_IN_USE \<noteq> 0) }"

definition clear_rec_inuse :: "mft_inode \<Rightarrow> mft_inode option" where
  "clear_rec_inuse mi = do { f \<leftarrow> rec_flags mi; set_rec_flags mi (f AND NOT RECORD_FLAG_IN_USE) }"

text \<open>Fields of the \<^verbatim>\<open>ATTRIB\<close> at offset \<open>a\<close>.\<close>

definition attr_type :: "mft_inode \<Rightarrow> nat \<Rightarrow> u32 option" where
  "attr_type mi a = do { m \<leftarrow> mrec mi; rd32 m a }"

definition attr_size :: "mft_inode \<Rightarrow> nat \<Rightarrow> u32 option" where
  "attr_size mi a = do { m \<leftarrow> mrec mi; rd32 m (a + 0x04) }"

definition attr_non_res :: "mft_inode \<Rightarrow> nat \<Rightarrow> u8 option" where
  "attr_non_res mi a = do { m \<leftarrow> mrec mi; rd8 m (a + 0x08) }"

definition attr_name_len :: "mft_inode \<Rightarrow> nat \<Rightarrow> u8 option" where
  "attr_name_len mi a = do { m \<leftarrow> mrec mi; rd8 m (a + 0x09) }"

definition attr_name_off :: "mft_inode \<Rightarrow> nat \<Rightarrow> u16 option" where
  "attr_name_off mi a = do { m \<leftarrow> mrec mi; rd16 m (a + 0x0A) }"

definition attr_flags :: "mft_inode \<Rightarrow> nat \<Rightarrow> u16 option" where
  "attr_flags mi a = do { m \<leftarrow> mrec mi; rd16 m (a + 0x0C) }"

definition attr_id :: "mft_inode \<Rightarrow> nat \<Rightarrow> u16 option" where
  "attr_id mi a = do { m \<leftarrow> mrec mi; rd16 m (a + 0x0E) }"

definition attr_res_data_size :: "mft_inode \<Rightarrow> nat \<Rightarrow> u32 option" where
  "attr_res_data_size mi a = do { m \<leftarrow> mrec mi; rd32 m (a + 0x10) }"

definition attr_res_data_off :: "mft_inode \<Rightarrow> nat \<Rightarrow> u16 option" where
  "attr_res_data_off mi a = do { m \<leftarrow> mrec mi; rd16 m (a + 0x14) }"

definition attr_res_flags :: "mft_inode \<Rightarrow> nat \<Rightarrow> u8 option" where
  "attr_res_flags mi a = do { m \<leftarrow> mrec mi; rd8 m (a + 0x16) }"

definition attr_nres_svcn :: "mft_inode \<Rightarrow> nat \<Rightarrow> u64 option" where
  "attr_nres_svcn mi a = do { m \<leftarrow> mrec mi; rd64 m (a + 0x10) }"

definition attr_nres_evcn :: "mft_inode \<Rightarrow> nat \<Rightarrow> u64 option" where
  "attr_nres_evcn mi a = do { m \<leftarrow> mrec mi; rd64 m (a + 0x18) }"

definition attr_nres_run_off :: "mft_inode \<Rightarrow> nat \<Rightarrow> u16 option" where
  "attr_nres_run_off mi a = do { m \<leftarrow> mrec mi; rd16 m (a + 0x20) }"

definition attr_nres_c_unit :: "mft_inode \<Rightarrow> nat \<Rightarrow> u8 option" where
  "attr_nres_c_unit mi a = do { m \<leftarrow> mrec mi; rd8 m (a + 0x22) }"

definition set_attr_type :: "mft_inode \<Rightarrow> nat \<Rightarrow> u32 \<Rightarrow> mft_inode option" where
  "set_attr_type mi a v = do { m \<leftarrow> mrec mi; m' \<leftarrow> wr32 m a v; Some (mi\<lparr>mrec := Some m'\<rparr>) }"

definition set_attr_size :: "mft_inode \<Rightarrow> nat \<Rightarrow> u32 \<Rightarrow> mft_inode option" where
  "set_attr_size mi a v =
     do { m \<leftarrow> mrec mi; m' \<leftarrow> wr32 m (a + 0x04) v; Some (mi\<lparr>mrec := Some m'\<rparr>) }"

definition set_attr_name_len :: "mft_inode \<Rightarrow> nat \<Rightarrow> u8 \<Rightarrow> mft_inode option" where
  "set_attr_name_len mi a v =
     do { m \<leftarrow> mrec mi; m' \<leftarrow> wr8 m (a + 0x09) v; Some (mi\<lparr>mrec := Some m'\<rparr>) }"

definition set_attr_name_off :: "mft_inode \<Rightarrow> nat \<Rightarrow> u16 \<Rightarrow> mft_inode option" where
  "set_attr_name_off mi a v =
     do { m \<leftarrow> mrec mi; m' \<leftarrow> wr16 m (a + 0x0A) v; Some (mi\<lparr>mrec := Some m'\<rparr>) }"

definition set_attr_id :: "mft_inode \<Rightarrow> nat \<Rightarrow> u16 \<Rightarrow> mft_inode option" where
  "set_attr_id mi a v =
     do { m \<leftarrow> mrec mi; m' \<leftarrow> wr16 m (a + 0x0E) v; Some (mi\<lparr>mrec := Some m'\<rparr>) }"

definition set_attr_res_data_size :: "mft_inode \<Rightarrow> nat \<Rightarrow> u32 \<Rightarrow> mft_inode option" where
  "set_attr_res_data_size mi a v =
     do { m \<leftarrow> mrec mi; m' \<leftarrow> wr32 m (a + 0x10) v; Some (mi\<lparr>mrec := Some m'\<rparr>) }"

definition set_attr_nres_evcn :: "mft_inode \<Rightarrow> nat \<Rightarrow> u64 \<Rightarrow> mft_inode option" where
  "set_attr_nres_evcn mi a v =
     do { m \<leftarrow> mrec mi; m' \<leftarrow> wr64 m (a + 0x18) v; Some (mi\<lparr>mrec := Some m'\<rparr>) }"

text \<open>\<^verbatim>\<open>is_attr_ext\<close>: the attribute is sparse or compressed (bits \<^verbatim>\<open>0x8000\<close> and \<^verbatim>\<open>0x0001\<close>
  of its flags). \<^verbatim>\<open>is_attr_indexed\<close>: it is resident and its resident flags have the
  indexed bit.\<close>

definition is_attr_ext :: "mft_inode \<Rightarrow> nat \<Rightarrow> bool option" where
  "is_attr_ext mi a = do { f \<leftarrow> attr_flags mi a; Some (f AND 0x8001 \<noteq> 0) }"

definition is_attr_indexed :: "mft_inode \<Rightarrow> nat \<Rightarrow> bool option" where
  "is_attr_indexed mi a =
     do { nr \<leftarrow> attr_non_res mi a;
          if nr \<noteq> 0 then Some False
          else do { f \<leftarrow> attr_res_flags mi a; Some (f AND 0x01 \<noteq> 0) } }"

section \<open>The attribute enumerator\<close>

text \<open>The part of \<^verbatim>\<open>mi_enum_attr\<close> after the two branches have met: \<open>a\<close> is the pointer
  \<^verbatim>\<open>attr\<close>, \<open>off\<close> the 32-bit variable of that name.\<close>

definition enum_check :: "mft_inode \<Rightarrow> u32 \<Rightarrow> nat \<Rightarrow> u32 \<Rightarrow> nat option option" where
  "enum_check mi used a off = do {
     asize \<leftarrow> attr_size mi a;
     if used < off + 8 then Some None
     else do {
       ty \<leftarrow> attr_type mi a;
       if ty = ATTR_END then (if used \<noteq> off + 8 then Some None else Some None)
       else if ty AND 0xf \<noteq> 0 \<or> 0x100 < ty then Some None
       else if used < off + asize then Some None
       else do {
         nr \<leftarrow> attr_non_res mi a;
         if nr = 0 then
           (if asize < SIZEOF_RESIDENT then Some None
            else do {
              t16 \<leftarrow> attr_res_data_off mi a;
              if asize < ucast t16 then Some None
              else do {
                t32 \<leftarrow> attr_res_data_size mi a;
                if asize < ucast t16 + t32 then Some None else Some (Some a) } })
         else do {
           nl \<leftarrow> attr_name_len mi a;
           bad_name \<leftarrow>
             (if nl = 0 then Some False
              else do {
                noff \<leftarrow> attr_name_off mi a;
                roff \<leftarrow> attr_nres_run_off mi a;
                Some (unat roff < unat noff + 2 * unat nl) });
           if bad_name then Some None
           else do {
             svcn \<leftarrow> attr_nres_svcn mi a;
             ext \<leftarrow> (if svcn \<noteq> 0 then Some False else is_attr_ext mi a);
             if svcn \<noteq> 0 \<or> \<not> ext then
               (if asize + 8 < SIZEOF_NONRESIDENT then Some None
                else do {
                  cu \<leftarrow> attr_nres_c_unit mi a;
                  if cu \<noteq> 0 then Some None else Some (Some a) })
             else if asize + 8 < SIZEOF_NONRESIDENT_EX then Some None
             else Some (Some a) } } } } }"

definition mi_enum_attr :: "mft_inode \<Rightarrow> nat option \<Rightarrow> nat option option" where
  "mi_enum_attr mi attr = do {
     used \<leftarrow> rec_used mi;
     pos \<leftarrow>
       (case attr of
          None \<Rightarrow> do {
            total \<leftarrow> rec_total mi;
            aoff \<leftarrow> rec_attr_off mi;
            let off = (ucast aoff :: u32);
            if total < used then Some None
            else if used \<le> off \<or> off < MFTRECORD_FIXUP_OFFSET_1 \<or> \<not> IsDwordAligned off
            then Some None
            else do {
              inuse \<leftarrow> is_rec_inuse mi;
              if \<not> inuse then Some None else Some (Some (unat off, off)) } }
        | Some p \<Rightarrow> do {
            let off = PtrOffset p;
            if used \<le> off then Some None
            else do {
              asize \<leftarrow> attr_size mi p;
              if asize < SIZEOF_RESIDENT then Some None
              else Some (Some (p + unat asize, off + asize)) } });
     case pos of
       None \<Rightarrow> Some None
     | Some (a, off) \<Rightarrow> enum_check mi used a off }"


text \<open>The attributes the enumerator yields when it is called again and again, starting
  after \<open>attr\<close> (from the first one for \<open>None\<close>), until it returns \<^verbatim>\<open>NULL\<close>.\<close>

partial_function (option) attrs_from :: "mft_inode \<Rightarrow> nat option \<Rightarrow> nat list option" where
  "attrs_from mi attr = do {
     r \<leftarrow> mi_enum_attr mi attr;
     case r of
       None \<Rightarrow> Some []
     | Some a \<Rightarrow> do { as \<leftarrow> attrs_from mi (Some a); Some (a # as) } }"

declare attrs_from.simps [code]

section \<open>The attribute locator\<close>

text \<open>\<^verbatim>\<open>attr_name(attr)\<close> is \<^verbatim>\<open>Add2Ptr(attr, le16_to_cpu(attr->name_off))\<close>; the name read there
  has \<open>n\<close> 16-bit units.\<close>

definition attr_name :: "mft_inode \<Rightarrow> nat \<Rightarrow> nat \<Rightarrow> bytes option" where
  "attr_name mi a n = do {
     m \<leftarrow> mrec mi;
     noff \<leftarrow> attr_name_off mi a;
     load m (a + unat noff) (2 * n) }"

text \<open>The tests \<^verbatim>\<open>mi_find_attr\<close> makes on an attribute of the requested type. The caller's
  \<^verbatim>\<open>name\<close> is its bytes, \<^verbatim>\<open>name_len\<close> counts 16-bit units, \<^verbatim>\<open>id\<close> is a pointer that may be
  \<^verbatim>\<open>NULL\<close>.\<close>

definition find_match :: "mft_inode \<Rightarrow> nat \<Rightarrow> bytes \<Rightarrow> nat \<Rightarrow> u16 option \<Rightarrow> bool option" where
  "find_match mi a name name_len aid = do {
     nl \<leftarrow> attr_name_len mi a;
     if unat nl \<noteq> name_len then Some False
     else do {
       differs \<leftarrow>
         (if name_len = 0 then Some False
          else do {
            an \<leftarrow> attr_name mi a name_len;
            if length name < 2 * name_len then None
            else Some (an \<noteq> take (2 * name_len) name) });
       if differs then Some False
       else (case aid of
               None \<Rightarrow> Some True
             | Some i \<Rightarrow> do { ai \<leftarrow> attr_id mi a; Some (i = ai) }) } }"

partial_function (option) mi_find_attr ::
  "mft_inode \<Rightarrow> nat option \<Rightarrow> u32 \<Rightarrow> bytes \<Rightarrow> nat \<Rightarrow> u16 option \<Rightarrow> nat option option" where
  "mi_find_attr mi attr type name name_len aid = do {
     r \<leftarrow> mi_enum_attr mi attr;
     case r of
       None \<Rightarrow> Some None
     | Some a \<Rightarrow> do {
         atype \<leftarrow> attr_type mi a;
         if type < atype then Some None
         else if atype < type then mi_find_attr mi (Some a) type name name_len aid
         else do {
           ok \<leftarrow> find_match mi a name name_len aid;
           if ok then Some (Some a) else mi_find_attr mi (Some a) type name name_len aid } } }"

declare mi_find_attr.simps [code]

section \<open>The attribute id allocator\<close>

text \<open>The loop of \<^verbatim>\<open>mi_new_attt_id\<close> at the label \<^verbatim>\<open>next_attr\<close>.\<close>

partial_function (option) new_attt_id_scan ::
  "mft_inode \<Rightarrow> u16 \<Rightarrow> u16 \<Rightarrow> nat option \<Rightarrow> (u16 \<times> mft_inode) option" where
  "new_attt_id_scan mi free_id max_id attr = do {
     r \<leftarrow> mi_enum_attr mi attr;
     case r of
       None \<Rightarrow> do {
         mi' \<leftarrow> set_rec_next_attr_id mi (max_id + 1);
         Some (free_id, mi'\<lparr>dirty := True\<rparr>) }
     | Some a \<Rightarrow> do {
         t16 \<leftarrow> attr_id mi a;
         if t16 = free_id then new_attt_id_scan mi (free_id + 1) max_id None
         else new_attt_id_scan mi free_id (if max_id < t16 then t16 else max_id) (Some a) } }"

declare new_attt_id_scan.simps [code]

definition mi_new_attt_id :: "mft_inode \<Rightarrow> (u16 \<times> mft_inode) option" where
  "mi_new_attt_id mi = do {
     aid \<leftarrow> rec_next_attr_id mi;
     if aid < 0x7FFF then do {
       mi' \<leftarrow> set_rec_next_attr_id mi (aid + 1);
       Some (aid, mi') }
     else new_attt_id_scan mi 0 0 None }"

section \<open>The attribute space manager\<close>

text \<open>
  \<^verbatim>\<open>ntfs_cmp_names\<close> is defined outside \<^verbatim>\<open>record.c\<close>; it is a parameter of the model. It gets
  the two names (their bytes and their lengths in 16-bit units) and the upcase table, or
  \<^verbatim>\<open>NULL\<close> for the case-sensitive comparison, and returns an \<^verbatim>\<open>int\<close>.
\<close>

type_synonym cmp_names = "bytes \<Rightarrow> u8 \<Rightarrow> bytes \<Rightarrow> u8 \<Rightarrow> u16 list option \<Rightarrow> int"

record ntfs_sb_info =
  record_size :: u32
  record_bits :: u8
  cluster_bits :: u8
  mft_used :: u64
  new_rec :: bytes
  upcase :: "u16 list option"

definition compare_attr ::
  "cmp_names \<Rightarrow> mft_inode \<Rightarrow> nat \<Rightarrow> u32 \<Rightarrow> bytes \<Rightarrow> u8 \<Rightarrow> u16 list option \<Rightarrow> int option" where
  "compare_attr ntfs_cmp_names mi left type name name_len upc = do {
     lt \<leftarrow> attr_type mi left;
     let diff = sint (lt - type);
     if diff \<noteq> 0 then Some diff
     else do {
       lnl \<leftarrow> attr_name_len mi left;
       ln \<leftarrow> attr_name mi left (unat lnl);
       let diff = ntfs_cmp_names ln lnl name name_len upc;
       if diff \<noteq> 0 then Some diff
       else Some (ntfs_cmp_names ln lnl name name_len None) } }"

text \<open>How the \<^verbatim>\<open>while\<close> loop of \<^verbatim>\<open>mi_insert_attr\<close> ends: with \<^verbatim>\<open>return NULL\<close> at an equal
  attribute that is not indexed, or with the value of \<^verbatim>\<open>attr\<close> at the \<^verbatim>\<open>break\<close> or at the
  end of the list.\<close>

datatype insert_pos = Duplicate | InsertAt "nat option"

partial_function (option) insert_scan ::
  "cmp_names \<Rightarrow> mft_inode \<Rightarrow> u32 \<Rightarrow> bytes \<Rightarrow> u8 \<Rightarrow> u16 list option \<Rightarrow> nat option
     \<Rightarrow> insert_pos option" where
  "insert_scan ntfs_cmp_names mi type name name_len upc attr = do {
     r \<leftarrow> mi_enum_attr mi attr;
     case r of
       None \<Rightarrow> Some (InsertAt None)
     | Some a \<Rightarrow> do {
         diff \<leftarrow> compare_attr ntfs_cmp_names mi a type name name_len upc;
         if 0 < diff then Some (InsertAt (Some a))
         else if diff < 0 then insert_scan ntfs_cmp_names mi type name name_len upc (Some a)
         else do {
           ix \<leftarrow> is_attr_indexed mi a;
           if \<not> ix then Some Duplicate else Some (InsertAt (Some a)) } } }"

declare insert_scan.simps [code]

definition mi_insert_attr ::
  "cmp_names \<Rightarrow> ntfs_sb_info \<Rightarrow> mft_inode \<Rightarrow> u32 \<Rightarrow> bytes \<Rightarrow> u8 \<Rightarrow> u32 \<Rightarrow> u16
     \<Rightarrow> (nat option \<times> mft_inode) option" where
  "mi_insert_attr ntfs_cmp_names sbi mi type name name_len asize name_off = do {
     used \<leftarrow> rec_used mi;
     if record_size sbi < used + asize then Some (None, mi)
     else do {
       pos \<leftarrow> insert_scan ntfs_cmp_names mi type name name_len (upcase sbi) None;
       case pos of
         Duplicate \<Rightarrow> Some (None, mi)
       | InsertAt at \<Rightarrow> do {
           let (tail, attr) =
             (case at of
                None \<Rightarrow> (8, unat (used - 8))
              | Some a \<Rightarrow> (uint used - int a, a));
           (aid, mi) \<leftarrow> mi_new_attt_id mi;
           m \<leftarrow> mrec mi;
           m \<leftarrow> memmove m (int attr + uint asize) (int attr) tail;
           m \<leftarrow> memset m (int attr) 0 (uint asize);
           mi \<leftarrow> set_attr_type (mi\<lparr>mrec := Some m\<rparr>) attr type;
           mi \<leftarrow> set_attr_size mi attr asize;
           mi \<leftarrow> set_attr_name_len mi attr name_len;
           mi \<leftarrow> set_attr_name_off mi attr name_off;
           mi \<leftarrow> set_attr_id mi attr aid;
           m \<leftarrow> mrec mi;
           m \<leftarrow> (if length name < 2 * unat name_len then None
                else store m (attr + unat name_off) (take (2 * unat name_len) name));
           mi \<leftarrow> set_rec_used (mi\<lparr>mrec := Some m\<rparr>) (used + asize);
           Some (Some attr, mi\<lparr>dirty := True\<rparr>) } } }"

definition mi_remove_attr :: "mft_inode \<Rightarrow> nat \<Rightarrow> (bool \<times> mft_inode) option" where
  "mi_remove_attr mi attr = do {
     let aoff = PtrOffset attr;
     used \<leftarrow> rec_used mi;
     asize \<leftarrow> attr_size mi attr;
     if used < aoff + asize then Some (False, mi)
     else do {
       let used = used - asize;
       m \<leftarrow> mrec mi;
       m \<leftarrow> memmove m (int attr) (int attr + uint asize) (uint (used - aoff));
       mi \<leftarrow> set_rec_used (mi\<lparr>mrec := Some m\<rparr>) used;
       Some (True, mi\<lparr>dirty := True\<rparr>) } }"

text \<open>The common end of the two branches of \<^verbatim>\<open>mi_resize_attr\<close>.\<close>

definition resize_finish ::
  "mft_inode \<Rightarrow> nat \<Rightarrow> u32 \<Rightarrow> u32 \<Rightarrow> u32 \<Rightarrow> (bool \<times> mft_inode) option" where
  "resize_finish mi attr used nsize rsize = do {
     mi \<leftarrow> set_rec_used mi used;
     mi \<leftarrow> set_attr_size mi attr nsize;
     nr \<leftarrow> attr_non_res mi attr;
     mi \<leftarrow> (if nr = 0 then set_attr_res_data_size mi attr rsize else Some mi);
     Some (True, mi\<lparr>dirty := True\<rparr>) }"

text \<open>\<^verbatim>\<open>bytes\<close>, \<^verbatim>\<open>tail\<close> and \<^verbatim>\<open>dsize\<close> are C \<^verbatim>\<open>int\<close>s: 32-bit words read as signed.
  \<^verbatim>\<open>QuadAlign\<close> adds the unsigned \<^verbatim>\<open>7u\<close>, so its result is unsigned and is converted back
  when it is assigned to \<^verbatim>\<open>dsize\<close>; the comparisons with \<^verbatim>\<open>total\<close> and \<^verbatim>\<open>asize\<close> are
  unsigned.\<close>

definition mi_resize_attr :: "mft_inode \<Rightarrow> nat \<Rightarrow> 32 word \<Rightarrow> (bool \<times> mft_inode) option" where
  "mi_resize_attr mi attr bytes = do {
     let aoff = PtrOffset attr;
     used \<leftarrow> rec_used mi;
     asize \<leftarrow> attr_size mi attr;
     rsize \<leftarrow> attr_res_data_size mi attr;
     let tail = sint (used - aoff - asize);
     if tail < 0 \<or> used \<le> aoff then Some (False, mi)
     else if bytes = 0 then Some (True, mi)
     else do {
       total \<leftarrow> rec_total mi;
       let next = int attr + uint asize;
       if 0 < sint bytes then do {
         let dsize = QuadAlign bytes;
         if total < used + dsize then Some (False, mi)
         else do {
           m \<leftarrow> mrec mi;
           m \<leftarrow> memmove m (next + sint dsize) next tail;
           m \<leftarrow> memset m next 0 (sint dsize);
           resize_finish (mi\<lparr>mrec := Some m\<rparr>) attr (used + dsize) (asize + dsize)
             (rsize + dsize) } }
       else do {
         let dsize = QuadAlign (- bytes);
         if asize < dsize then Some (False, mi)
         else do {
           m \<leftarrow> mrec mi;
           m \<leftarrow> memmove m (next - sint dsize) next tail;
           resize_finish (mi\<lparr>mrec := Some m\<rparr>) attr (used - dsize) (asize - dsize)
             (rsize - dsize) } } } }"

section \<open>The run packer\<close>

text \<open>
  \<^verbatim>\<open>run_pack\<close> is defined outside \<^verbatim>\<open>record.c\<close>; it is a parameter of the model. From the run
  tree, the first cluster, the number of clusters asked for and the size of the buffer it
  gets the C function's \<^verbatim>\<open>int\<close> result (the bytes used, or a negative error), the bytes it
  has put at the start of the buffer, and \<^verbatim>\<open>plen\<close>, the clusters packed. A serializer
  that writes more than the size it was given is outside the model (\<open>None\<close>).
\<close>

type_synonym 'r run_pack = "'r \<Rightarrow> CLST \<Rightarrow> CLST \<Rightarrow> u32 \<Rightarrow> 32 word \<times> bytes \<times> CLST"

definition mi_pack_runs ::
  "'r run_pack \<Rightarrow> ntfs_sb_info \<Rightarrow> mft_inode \<Rightarrow> nat \<Rightarrow> 'r \<Rightarrow> CLST \<Rightarrow> (32 word \<times> mft_inode) option"
  where
  "mi_pack_runs run_pack sbi mi attr run len = do {
     svcn64 \<leftarrow> attr_nres_svcn mi attr;
     let svcn = (ucast svcn64 :: CLST);
     used \<leftarrow> rec_used mi;
     let aoff = PtrOffset attr;
     asize \<leftarrow> attr_size mi attr;
     let next = int attr + uint asize;
     run_off \<leftarrow> attr_nres_run_off mi attr;
     let run_size = asize - ucast run_off;
     let tail = used - aoff - asize;
     let dsize = record_size sbi - used;
     m \<leftarrow> mrec mi;
     m \<leftarrow> memmove m (next + uint dsize) next (uint tail);
     let (err, out, plen) = run_pack run svcn len (run_size + dsize);
     m \<leftarrow> (if unat (run_size + dsize) < length out then None
          else store m (attr + unat run_off) out);
     if sint err < 0 then do {
       m \<leftarrow> memmove m next (next + uint dsize) (uint tail);
       Some (err, mi\<lparr>mrec := Some m\<rparr>) }
     else do {
       let new_run_size = QuadAlign err;
       m \<leftarrow> memmove m (next + uint new_run_size - uint run_size) (next + uint dsize) (uint tail);
       mi \<leftarrow> set_attr_size (mi\<lparr>mrec := Some m\<rparr>) attr (asize + new_run_size - run_size);
       mi \<leftarrow> set_attr_nres_evcn mi attr (ucast (svcn + plen - 1));
       mi \<leftarrow> set_rec_used mi (used + new_run_size - run_size);
       Some (0, mi\<lparr>dirty := True\<rparr>) } }"

section \<open>The record lifecycle\<close>

text \<open>
  The functions below call into the rest of the driver: the allocator, the block layer,
  the run loader and the MFT bitmap. These are parameters of the model, acting on a state
  \<open>'w\<close> of everything outside the \<^verbatim>\<open>mft_inode\<close>; each takes the arguments the C call
  passes and returns the C result with the next state. The enumerators \<^verbatim>\<open>MFT_REC_RESERVED\<close>
  and \<^verbatim>\<open>MFT_REC_FREE\<close> of \<^verbatim>\<open>ntfs.h\<close> are parameters too. The model is sequential: taking and
  releasing \<^verbatim>\<open>run_lock\<close> and \<^verbatim>\<open>ni_lock\<close> is left out, and so is the flag \<^verbatim>\<open>is_mft\<close>, which
  only selects whether the lock is taken.
\<close>

record 'w ntfs_ext =
  MFT_REC_RESERVED :: CLST
  MFT_REC_FREE :: CLST
  ntfs_alloc :: "'w \<Rightarrow> u32 \<Rightarrow> bytes option"
  ntfs_read_bh_ex :: "'w \<Rightarrow> u64 \<Rightarrow> u32 \<Rightarrow> (32 word \<times> bytes \<times> u32) \<times> 'w"
  attr_load_runs_vcn :: "'w \<Rightarrow> u64 \<Rightarrow> 32 word \<times> 'w"
  ntfs_write_bh_ex :: "'w \<Rightarrow> bytes \<Rightarrow> u32 \<Rightarrow> 32 word \<Rightarrow> 32 word \<times> 'w"
  ntfs_get_bh :: "'w \<Rightarrow> u64 \<Rightarrow> u32 \<Rightarrow> (32 word \<times> u32) \<times> 'w"
  ntfs_clear_mft_tail :: "'w \<Rightarrow> CLST \<Rightarrow> CLST \<Rightarrow> 'w"
  ntfs_mark_rec_free :: "'w \<Rightarrow> CLST \<Rightarrow> 'w"

definition ENOENT :: "32 word" where "ENOENT = 2"
definition ENOMEM :: "32 word" where "ENOMEM = 12"
definition EINVAL :: "32 word" where "EINVAL = 22"

definition mi_init ::
  "'w ntfs_ext \<Rightarrow> 'w \<Rightarrow> mft_inode \<Rightarrow> ntfs_sb_info \<Rightarrow> CLST \<Rightarrow> 32 word \<times> mft_inode" where
  "mi_init x w mi sbi r =
     (let mi = mi\<lparr>rno := r, mrec := ntfs_alloc x w (record_size sbi)\<rparr>
      in if mrec mi = None then (- ENOMEM, mi) else (0, mi))"

text \<open>One call of \<^verbatim>\<open>ntfs_read_bh_ex\<close> with \<^verbatim>\<open>&rec->rhdr\<close> as its buffer: what the block layer
  delivers is stored at the start of the record, and \<^verbatim>\<open>mi->nb\<close> is filled in.\<close>

definition read_bh ::
  "'w ntfs_ext \<Rightarrow> 'w \<Rightarrow> mft_inode \<Rightarrow> u64 \<Rightarrow> u32 \<Rightarrow> (32 word \<times> mft_inode \<times> 'w) option" where
  "read_bh x w mi vbo bpr = do {
     m \<leftarrow> mrec mi;
     let ((err, data, nb), w) = ntfs_read_bh_ex x w vbo bpr;
     m \<leftarrow> store m 0 data;
     Some (err, mi\<lparr>mrec := Some m, nbufs := nb\<rparr>, w) }"

text \<open>The end of \<^verbatim>\<open>mi_read\<close> from the label \<^verbatim>\<open>ok\<close>.\<close>

definition read_ok :: "mft_inode \<Rightarrow> 'w \<Rightarrow> u32 \<Rightarrow> (32 word \<times> mft_inode \<times> 'w) option" where
  "read_ok mi w bpr = do {
     total \<leftarrow> rec_total mi;
     if total \<noteq> bpr then Some (- EINVAL, mi, w) else Some (0, mi, w) }"

definition mi_read ::
  "'w ntfs_ext \<Rightarrow> ntfs_sb_info \<Rightarrow> 'w \<Rightarrow> mft_inode \<Rightarrow> (32 word \<times> mft_inode \<times> 'w) option" where
  "mi_read x sbi w mi = do {
     let bpr = record_size sbi;
     let vbo = push_bit (unat (record_bits sbi)) (ucast (rno mi) :: u64);
     (err, mi, w) \<leftarrow> read_bh x w mi vbo bpr;
     if err = 0 then read_ok mi w bpr
     else if err = 1 then read_ok (mi\<lparr>dirty := True\<rparr>) w bpr
     else if err \<noteq> - ENOENT then Some (err, mi, w)
     else do {
       let (err, w) = attr_load_runs_vcn x w (drop_bit (unat (cluster_bits sbi)) vbo);
       if err \<noteq> 0 then Some (err, mi, w)
       else do {
         (err, mi, w) \<leftarrow> read_bh x w mi vbo bpr;
         if err = 1 then read_ok (mi\<lparr>dirty := True\<rparr>) w bpr
         else if err \<noteq> 0 then Some (err, mi, w)
         else read_ok mi w bpr } } }"

definition mi_write ::
  "'w ntfs_ext \<Rightarrow> 'w \<Rightarrow> mft_inode \<Rightarrow> 32 word \<Rightarrow> (32 word \<times> mft_inode \<times> 'w) option" where
  "mi_write x w mi wait =
     (if \<not> dirty mi then Some (0, mi, w)
      else do {
        m \<leftarrow> mrec mi;
        let (err, w) = ntfs_write_bh_ex x w m (nbufs mi) wait;
        if err \<noteq> 0 then Some (err, mi, w)
        else Some (0, mi\<lparr>dirty := False\<rparr>, w) })"

text \<open>The chain of \<^verbatim>\<open>if\<close>s of \<^verbatim>\<open>mi_format_new\<close> that yields \<^verbatim>\<open>seq\<close>; the record is read
  only when the chain reaches \<^verbatim>\<open>mi_read\<close>.\<close>

definition format_seq ::
  "'w ntfs_ext \<Rightarrow> ntfs_sb_info \<Rightarrow> 'w \<Rightarrow> mft_inode \<Rightarrow> CLST \<Rightarrow> (u16 \<times> mft_inode \<times> 'w) option" where
  "format_seq x sbi w mi r =
     (if r = MFT_REC_MFT then Some (1, mi, w)
      else if r < MFT_REC_FREE x then Some (ucast r, mi, w)
      else if mft_used sbi \<le> ucast r then Some (1, mi, w)
      else do {
        (err, mi, w) \<leftarrow> mi_read x sbi w mi;
        if err \<noteq> 0 then Some (1, mi, w)
        else do {
          sign \<leftarrow> rec_sign mi;
          if sign = NTFS_FILE_SIGNATURE then do {
            old \<leftarrow> rec_seqnum mi;
            let seq = old + 1;
            Some (if seq = 0 then 1 else seq, mi, w) }
          else Some (1, mi, w) } })"

definition mi_format_new ::
  "'w ntfs_ext \<Rightarrow> 'w \<Rightarrow> mft_inode \<Rightarrow> ntfs_sb_info \<Rightarrow> CLST \<Rightarrow> u16
     \<Rightarrow> (32 word \<times> mft_inode \<times> 'w) option" where
  "mi_format_new x w mi sbi r flags = do {
     let vbo = push_bit (unat (record_bits sbi)) (ucast r :: u64);
     let (err, mi) = mi_init x w mi sbi r;
     if err \<noteq> 0 then Some (err, mi, w)
     else do {
       (seq, mi, w) \<leftarrow> format_seq x sbi w mi r;
       m \<leftarrow> mrec mi;
       src \<leftarrow> load (new_rec sbi) 0 (unat (record_size sbi));
       m \<leftarrow> store m 0 src;
       mi \<leftarrow> set_rec_seq (mi\<lparr>mrec := Some m\<rparr>) seq;
       mi \<leftarrow> set_rec_flags mi (RECORD_FLAG_IN_USE OR flags);
       let mi = mi\<lparr>dirty := True\<rparr>;
       if nbufs mi = 0 then
         (let ((err, nb), w) = ntfs_get_bh x w vbo (record_size sbi)
          in Some (err, mi\<lparr>nbufs := nb\<rparr>, w))
       else Some (err, mi, w) } }"

definition mi_mark_free :: "'w ntfs_ext \<Rightarrow> 'w \<Rightarrow> mft_inode \<Rightarrow> (mft_inode \<times> 'w) option" where
  "mi_mark_free x w mi =
     (let r = rno mi
      in if MFT_REC_RESERVED x \<le> r \<and> r < MFT_REC_FREE x
         then Some (mi\<lparr>dirty := False\<rparr>, ntfs_clear_mft_tail x w r (r + 1))
         else do {
           (mi, w) \<leftarrow>
             (if mrec mi \<noteq> None then do {
                mi \<leftarrow> clear_rec_inuse mi;
                (err, mi, w) \<leftarrow> mi_write x w (mi\<lparr>dirty := True\<rparr>) 0;
                Some (mi, w) }
              else Some (mi, w));
           Some (mi, ntfs_mark_rec_free x w r) })"


section \<open>Example records\<close>

text \<open>Small records on which the functions are run: a header with the attributes at
  \<^verbatim>\<open>0x30\<close> and the in-use flag set, resident attributes of \<^verbatim>\<open>0x18\<close> bytes without name or
  data, and the end marker.\<close>

definition put :: "nat \<Rightarrow> bytes \<Rightarrow> bytes \<Rightarrow> bytes" where
  "put p bs m = take p m @ bs @ drop (p + length bs) m"

definition ex_rec :: "nat \<Rightarrow> u32 \<Rightarrow> u32 \<Rightarrow> u16 \<Rightarrow> bytes \<Rightarrow> bytes" where
  "ex_rec n used tot next_id attrs =
     put 0x14 (to_le16 0x30) (put 0x16 (to_le16 1) (put 0x18 (to_le32 used)
       (put 0x1C (to_le32 tot) (put 0x28 (to_le16 next_id) (put 0x30 attrs
         (replicate n 0))))))"

definition ex_attr :: "u32 \<Rightarrow> u16 \<Rightarrow> bytes" where
  "ex_attr ty i =
     to_le32 ty @ to_le32 0x18 @ [0, 0] @ to_le16 0x18 @ to_le16 0 @ to_le16 i
       @ to_le32 0 @ to_le16 0x18 @ [0, 0]"

definition ex_end :: bytes where
  "ex_end = to_le32 0xFFFFFFFF @ [0, 0, 0, 0]"

definition ex_mi :: "bytes \<Rightarrow> mft_inode" where
  "ex_mi m = \<lparr>rno = 30, mrec = Some m, dirty = False, nbufs = 1\<rparr>"

definition ex_sbi :: ntfs_sb_info where
  "ex_sbi = \<lparr>record_size = 0x80, record_bits = 7, cluster_bits = 0, mft_used = 64,
     new_rec = ex_rec 0x80 0x38 0x80 0 ex_end, upcase = None\<rparr>"

text \<open>A stand-in for \<^verbatim>\<open>ntfs_cmp_names\<close> that orders names by their length, then by their
  bytes being equal or not.\<close>

definition ex_cmp :: cmp_names where
  "ex_cmp a la b lb u =
     (if la \<noteq> lb then int (unat la) - int (unat lb) else if a = b then 0 else 1)"

text \<open>One attribute of type \<^verbatim>\<open>0x10\<close> with id 0; \<^verbatim>\<open>used\<close> is \<^verbatim>\<open>0x50\<close>, the buffer has
  \<^verbatim>\<open>0x80\<close> bytes.\<close>

definition ex_bytes :: "u32 \<Rightarrow> bytes" where
  "ex_bytes tot = ex_rec 0x80 0x50 tot 1 (ex_attr 0x10 0 @ ex_end)"

definition ex_one :: "u32 \<Rightarrow> mft_inode" where
  "ex_one tot = ex_mi (ex_bytes tot)"

text \<open>The rest of the driver, for running the lifecycle functions: the state is the list of
  the calls made so far, every call succeeds, and a read delivers the bytes \<open>disk\<close>.\<close>

datatype io_event =
    Read_bh u64 u32
  | Load_runs u64
  | Write_bh bytes u32 "32 word"
  | Get_bh u64 u32
  | Clear_mft_tail CLST CLST
  | Mark_rec_free CLST

definition ex_ext :: "bytes \<Rightarrow> io_event list ntfs_ext" where
  "ex_ext disk = \<lparr>
     MFT_REC_RESERVED = 11,
     MFT_REC_FREE = 16,
     ntfs_alloc = (\<lambda>w n. Some (replicate (unat n) 0)),
     ntfs_read_bh_ex = (\<lambda>w vbo n. ((0, disk, 1), w @ [Read_bh vbo n])),
     attr_load_runs_vcn = (\<lambda>w vcn. (0, w @ [Load_runs vcn])),
     ntfs_write_bh_ex = (\<lambda>w m nb wait. (0, w @ [Write_bh m nb wait])),
     ntfs_get_bh = (\<lambda>w vbo n. ((0, 1), w @ [Get_bh vbo n])),
     ntfs_clear_mft_tail = (\<lambda>w a b. w @ [Clear_mft_tail a b]),
     ntfs_mark_rec_free = (\<lambda>w r. w @ [Mark_rec_free r]) \<rparr>"

text \<open>An occupant of a slot: the record above with the signature \<^verbatim>\<open>FILE\<close> and the
  sequence number 7.\<close>

definition ex_old :: bytes where
  "ex_old = put 0 (to_le32 NTFS_FILE_SIGNATURE) (put 0x10 (to_le16 7) (ex_bytes 0x80))"

text \<open>An \<^verbatim>\<open>mft_inode\<close> before \<^verbatim>\<open>mi_init\<close>.\<close>

definition ex_blank :: mft_inode where
  "ex_blank = \<lparr>rno = 0, mrec = None, dirty = False, nbufs = 0\<rparr>"

text \<open>A resident attribute whose size is any \<open>sz\<close> from \<^verbatim>\<open>0x18\<close> on; a record whose first
  attribute has the size \<^verbatim>\<open>0x19\<close>, so that the second one lies at \<^verbatim>\<open>0x49\<close>; and the record
  above with the in-use flag cleared.\<close>

definition ex_attr_n :: "u32 \<Rightarrow> u16 \<Rightarrow> u32 \<Rightarrow> bytes" where
  "ex_attr_n ty i sz =
     to_le32 ty @ to_le32 sz @ [0, 0] @ to_le16 0x18 @ to_le16 0 @ to_le16 i
       @ to_le32 0 @ to_le16 0x18 @ [0, 0] @ replicate (unat sz - 0x18) 0"

definition ex_odd :: mft_inode where
  "ex_odd = ex_mi (ex_rec 0x80 0x69 0x80 2 (ex_attr_n 0x10 0 0x19 @ ex_attr 0x20 1 @ ex_end))"

definition ex_free :: mft_inode where
  "ex_free = ex_mi ((ex_bytes 0x80)[0x16 := 0])"

text \<open>Four attributes of the types \<^verbatim>\<open>0x10\<close>, \<^verbatim>\<open>0x30\<close>, \<^verbatim>\<open>0x30\<close>, \<^verbatim>\<open>0x80\<close> with the ids 0, 1,
  3, 4, at the offsets \<^verbatim>\<open>0x30\<close>, \<^verbatim>\<open>0x48\<close>, \<^verbatim>\<open>0x60\<close>, \<^verbatim>\<open>0x78\<close>; the counter
  \<^verbatim>\<open>next_attr_id\<close> is exhausted. \<open>ex_ids\<close> and \<open>ex_types\<close> give the id and the type of the
  attribute at an offset.\<close>

definition ex_four :: mft_inode where
  "ex_four = ex_mi (ex_rec 0xA0 0x98 0xA0 0x7FFF
     (ex_attr 0x10 0 @ ex_attr 0x30 1 @ ex_attr 0x30 3 @ ex_attr 0x80 4 @ ex_end))"

definition ex_ids :: "nat \<Rightarrow> u16" where
  "ex_ids a = (if a = 0x30 then 0 else if a = 0x48 then 1 else if a = 0x60 then 3 else 4)"

definition ex_types :: "nat \<Rightarrow> u32" where
  "ex_types a = (if a = 0x30 then 0x10 else if a = 0x78 then 0x80 else 0x30)"

text \<open>A non-resident attribute of \<^verbatim>\<open>0x48\<close> bytes whose run list, 8 bytes, starts at
  \<^verbatim>\<open>0x40\<close>, in a record of \<^verbatim>\<open>0xA0\<close> bytes of which \<^verbatim>\<open>0x80\<close> are used; a volume with
  records of that size; a serializer that packs 5 clusters at most into 11 bytes, and one
  that fails with \<^verbatim>\<open>-EINVAL\<close> after it has written 3 bytes.\<close>

definition ex_nres_attr :: bytes where
  "ex_nres_attr =
     to_le32 0x80 @ to_le32 0x48 @ [1, 0] @ to_le16 0x40 @ to_le16 0 @ to_le16 0
       @ to_le64 0 @ to_le64 0 @ to_le16 0x40 @ replicate 30 0 @ replicate 8 0x11"

definition ex_nres :: mft_inode where
  "ex_nres = ex_mi (ex_rec 0xA0 0x80 0xA0 1 (ex_nres_attr @ ex_end))"

definition ex_sbi2 :: ntfs_sb_info where
  "ex_sbi2 = ex_sbi\<lparr>record_size := 0xA0\<rparr>"

definition ex_pack_ok :: "unit run_pack" where
  "ex_pack_ok run svcn cnt bufsz = (11, replicate 11 0xAB, if cnt < 5 then cnt else 5)"

definition ex_pack_fail :: "unit run_pack" where
  "ex_pack_fail run svcn cnt bufsz = (- EINVAL, replicate 3 0xCD, 0)"

text \<open>The same record with \<^verbatim>\<open>0x100000005\<close> in the 64-bit field \<^verbatim>\<open>svcn\<close> of the attribute,
  which lies at \<^verbatim>\<open>0x30 + 0x10\<close>; and the field \<^verbatim>\<open>evcn\<close> of the attribute at \<^verbatim>\<open>0x30\<close>.\<close>

definition ex_nres_hi :: mft_inode where
  "ex_nres_hi = ex_mi (put 0x40 (to_le64 0x100000005)
     (ex_rec 0xA0 0x80 0xA0 1 (ex_nres_attr @ ex_end)))"

definition ex_evcn :: "mft_inode \<Rightarrow> u64 option" where
  "ex_evcn mi = attr_nres_evcn mi 0x30"

section \<open>Reading and writing the buffer\<close>

lemma load_Some_iff: "load m p n = Some bs \<longleftrightarrow> p + n \<le> length m \<and> bs = take n (drop p m)"
  by (auto simp: load_def split: if_splits)

lemma load_length: "load m p n = Some bs \<Longrightarrow> length bs = n"
  by (auto simp: load_Some_iff)

lemma store_Some_iff:
  "store m p bs = Some m' \<longleftrightarrow>
     p + length bs \<le> length m \<and> m' = take p m @ bs @ drop (p + length bs) m"
  by (auto simp: store_def split: if_splits)

lemma store_length: "store m p bs = Some m' \<Longrightarrow> length m' = length m"
  by (auto simp: store_Some_iff)

lemma load_store_same: "store m p bs = Some m' \<Longrightarrow> load m' p (length bs) = Some bs"
  by (auto simp: store_Some_iff load_Some_iff)

lemma load_store_before:
  assumes "store m p bs = Some m'" and "q + n \<le> p"
  shows "load m' q n = load m q n"
proof -
  from assms(1) have p: "p + length bs \<le> length m"
    and m': "m' = take p m @ bs @ drop (p + length bs) m"
    by (auto simp: store_Some_iff)
  have len: "length (take p m) = p"
    using p by simp
  have "take n (drop q m') = take n (drop q (take p m))"
    unfolding m' using len assms(2) by simp
  also have "\<dots> = take n (take (p - q) (drop q m))"
    by (simp add: drop_take)
  also have "\<dots> = take n (drop q m)"
    using assms(2) by (simp add: min_def)
  finally show ?thesis
    using store_length [OF assms(1)] by (simp add: load_def)
qed

lemma load_store_after:
  assumes "store m p bs = Some m'" and "p + length bs \<le> q"
  shows "load m' q n = load m q n"
proof -
  from assms have "p + length bs \<le> length m" and m': "m' = take p m @ bs @ drop (p + length bs) m"
    by (auto simp: store_Some_iff)
  from assms(2) obtain d where d: "q = p + length bs + d"
    by (metis le_Suc_ex)
  have "drop q m' = drop q m"
    using \<open>p + length bs \<le> length m\<close> unfolding m' d
    by (simp add: add.commute add.left_commute)
  moreover have "length m' = length m"
    using assms(1) by (rule store_length)
  ultimately show ?thesis
    by (simp add: load_def)
qed

lemma load_store_other:
  assumes "store m p bs = Some m'" and "q + n \<le> p \<or> p + length bs \<le> q"
  shows "load m' q n = load m q n"
  using assms load_store_before load_store_after by blast

lemma le16_to: "le16_of (to_le16 v) = v"
  unfolding le16_of_def to_le16_def
  by (rule bit_word_eqI) (auto simp add: bit_simps)

lemma le32_to: "le32_of (to_le32 v) = v"
  unfolding le32_of_def to_le32_def
proof (rule bit_word_eqI, goal_cases)
  case (1 n)
  consider "n < 8" | "8 \<le> n" "n < 16" | "16 \<le> n" "n < 24" | "24 \<le> n" by linarith
  then show ?case
    using 1 by cases (auto simp add: bit_simps)
qed

lemma length_to_le16 [simp]: "length (to_le16 v) = 2"
  by (simp add: to_le16_def)

lemma length_to_le32 [simp]: "length (to_le32 v) = 4"
  by (simp add: to_le32_def)

lemma length_to_le64 [simp]: "length (to_le64 v) = 8"
  by (simp add: to_le64_def)

lemma le64_to: "le64_of (to_le64 v) = v"
  unfolding le64_of_def to_le64_def
  apply (simp add: le32_to)
  apply (rule bit_word_eqI)
  apply (auto simp add: bit_simps)
  done

lemma rd_wr_same:
  "wr8 m p v8 = Some m8 \<Longrightarrow> rd8 m8 p = Some v8"
  "wr16 m p v16 = Some m16 \<Longrightarrow> rd16 m16 p = Some v16"
  "wr32 m p v32 = Some m32 \<Longrightarrow> rd32 m32 p = Some v32"
  "wr64 m p v64 = Some m64 \<Longrightarrow> rd64 m64 p = Some v64"
  using load_store_same [of m p "[v8]" m8] load_store_same [of m p "to_le16 v16" m16]
    load_store_same [of m p "to_le32 v32" m32] load_store_same [of m p "to_le64 v64" m64]
  by (simp_all add: rd8_def wr8_def rd16_def wr16_def rd32_def wr32_def rd64_def wr64_def
      le16_to le32_to le64_to)

lemma rd_store_other:
  assumes "store m p bs = Some m'"
  shows "q + 1 \<le> p \<or> p + length bs \<le> q \<Longrightarrow> rd8 m' q = rd8 m q"
    and "q + 2 \<le> p \<or> p + length bs \<le> q \<Longrightarrow> rd16 m' q = rd16 m q"
    and "q + 4 \<le> p \<or> p + length bs \<le> q \<Longrightarrow> rd32 m' q = rd32 m q"
    and "q + 8 \<le> p \<or> p + length bs \<le> q \<Longrightarrow> rd64 m' q = rd64 m q"
  using load_store_other [OF assms]
  by (simp_all add: rd8_def rd16_def rd32_def rd64_def)

section \<open>Insertion that fails\<close>

text \<open>
  Claim C10. Whenever \<^verbatim>\<open>mi_insert_attr\<close> returns \<^verbatim>\<open>NULL\<close>, the record is the one it was
  given, so its \<^verbatim>\<open>next_attr_id\<close> is unchanged and no attribute id has been consumed; and
  the call has failed for one of the two reasons the code has: the capacity test, or the
  scan ending at an equal attribute that is not indexed. Both tests come before the call
  of \<^verbatim>\<open>mi_new_attt_id\<close>.
\<close>

theorem insert_fail_keeps_id:
  assumes "mi_insert_attr cmp sbi mi ty name nl asize noff = Some (None, mi')"
  shows "mi' = mi \<and> rec_next_attr_id mi' = rec_next_attr_id mi
    \<and> (\<exists>used. rec_used mi = Some used
          \<and> (record_size sbi < used + asize
               \<or> insert_scan cmp mi ty name nl (upcase sbi) None = Some Duplicate))"
  using assms
  by (auto simp: mi_insert_attr_def Let_def
      split: if_splits insert_pos.splits option.splits prod.splits Option.bind_splits)

text \<open>Inserting a second attribute of type \<^verbatim>\<open>0x10\<close> without a name, next to one that is
  not indexed, fails, and the counter stays at 1.\<close>

theorem insert_fail_keeps_id_witness:
  "mi_insert_attr ex_cmp ex_sbi (ex_one 0x80) 0x10 [] 0 0x18 0x18 = Some (None, ex_one 0x80)
   \<and> rec_next_attr_id (ex_one 0x80) = Some 1
   \<and> insert_scan ex_cmp (ex_one 0x80) 0x10 [] 0 (upcase ex_sbi) None = Some Duplicate"
proof -
  have run: "mi_insert_attr ex_cmp ex_sbi (ex_one 0x80) 0x10 [] 0 0x18 0x18
      = Some (None, ex_one 0x80)"
    by code_simp
  have small: "\<not> record_size ex_sbi < 0x50 + 0x18"
    by (simp add: ex_sbi_def)
  have used: "rec_used (ex_one 0x80) = Some 0x50"
    by code_simp
  have "rec_next_attr_id (ex_one 0x80) = Some 1"
    by code_simp
  with insert_fail_keeps_id [OF run] run small used show ?thesis
    by auto
qed

text \<open>\<^verbatim>\<open>mi_read\<close> succeeds only on a record whose field \<^verbatim>\<open>total\<close> is the volume's
  \<^verbatim>\<open>sbi->record_size\<close>: the test behind the label \<^verbatim>\<open>ok\<close> returns \<^verbatim>\<open>-EINVAL\<close> otherwise.\<close>

lemma read_ok_total:
  assumes "read_ok mi w bpr = Some (0, mi', w')"
  shows "rec_total mi' = Some bpr"
  using assms by (auto simp: read_ok_def EINVAL_def split: Option.bind_splits if_splits)

lemma mi_read_total:
  assumes "mi_read x sbi w mi = Some (0, mi', w')"
  shows "rec_total mi' = Some (record_size sbi)"
  using assms
  by (auto simp: mi_read_def Let_def dest: read_ok_total
      split: Option.bind_splits if_splits prod.splits)



section \<open>Formatting a record\<close>

lemma seq_after_stamp:
  assumes "set_rec_seq mi v = Some mi1" and "set_rec_flags mi1 f = Some mi2"
  shows "rec_seqnum mi2 = Some v"
proof -
  from assms(1) obtain m m1 where m: "mrec mi = Some m" "wr16 m 0x10 v = Some m1"
    and mi1: "mi1 = mi\<lparr>mrec := Some m1\<rparr>"
    by (auto simp: set_rec_seq_def split: Option.bind_splits)
  from assms(2) mi1 obtain m2 where m2: "wr16 m1 0x16 f = Some m2"
    and mi2: "mi2 = mi1\<lparr>mrec := Some m2\<rparr>"
    by (auto simp: set_rec_flags_def split: Option.bind_splits)
  have "rd16 m2 0x10 = rd16 m1 0x10"
    using m2 by (intro rd_store_other(2) [where p = "0x16" and bs = "to_le16 f"])
      (simp_all add: wr16_def)
  also have "\<dots> = Some v"
    using m(2) by (rule rd_wr_same)
  finally show ?thesis
    by (simp add: rec_seqnum_def mi2)
qed

lemma format_seq_cases:
  assumes "format_seq x sbi w mi0 r = Some (seq, mi1, w1)"
  shows "(r = MFT_REC_MFT \<longrightarrow> seq = 1)
    \<and> (r \<noteq> MFT_REC_MFT \<and> r < MFT_REC_FREE x \<longrightarrow> seq = ucast r)
    \<and> (r \<noteq> MFT_REC_MFT \<and> MFT_REC_FREE x \<le> r \<and> mft_used sbi \<le> ucast r \<longrightarrow> seq = 1)
    \<and> (r \<noteq> MFT_REC_MFT \<and> MFT_REC_FREE x \<le> r \<and> ucast r < mft_used sbi \<longrightarrow>
         (\<exists>e. mi_read x sbi w mi0 = Some (e, mi1, w1)
            \<and> (if e = 0 \<and> rec_sign mi1 = Some NTFS_FILE_SIGNATURE
                then \<exists>old. rec_seqnum mi1 = Some old \<and> seq = (if old + 1 = 0 then 1 else old + 1)
                else seq = 1)))"
  using assms
  by (auto simp: format_seq_def Let_def not_le not_less
      split: if_splits Option.bind_splits prod.splits)

text \<open>
  Claim C8, as amended. \<^verbatim>\<open>mi_format_new\<close> stamps the record with a sequence number that
  is: 1 for record number 0 (\<^verbatim>\<open>MFT_REC_MFT\<close>); the record number itself, cut to 16 bits,
  for the other record numbers below \<^verbatim>\<open>MFT_REC_FREE\<close>; 1 for a record number from
  \<^verbatim>\<open>MFT_REC_FREE\<close> on that is not below \<^verbatim>\<open>sbi->mft.used\<close>; and otherwise, when \<^verbatim>\<open>mi_read\<close>
  succeeds and the occupant carries the signature \<^verbatim>\<open>FILE\<close>, the occupant's sequence number
  plus one, with 1 in place of a wrap to 0, and 1 when the read fails or the signature is
  another.
\<close>

theorem format_new_seq:
  assumes init: "mi_init x w mi sbi r = (0, mi0)"
    and run: "mi_format_new x w mi sbi r flags = Some (err, mi', w')"
  shows "\<exists>seq. rec_seqnum mi' = Some seq
    \<and> (r = MFT_REC_MFT \<longrightarrow> seq = 1)
    \<and> (r \<noteq> MFT_REC_MFT \<and> r < MFT_REC_FREE x \<longrightarrow> seq = ucast r)
    \<and> (r \<noteq> MFT_REC_MFT \<and> MFT_REC_FREE x \<le> r \<and> mft_used sbi \<le> ucast r \<longrightarrow> seq = 1)
    \<and> (r \<noteq> MFT_REC_MFT \<and> MFT_REC_FREE x \<le> r \<and> ucast r < mft_used sbi \<longrightarrow>
         (\<exists>e mi1 w1. mi_read x sbi w mi0 = Some (e, mi1, w1)
            \<and> (if e = 0 \<and> rec_sign mi1 = Some NTFS_FILE_SIGNATURE
                then \<exists>old. rec_seqnum mi1 = Some old \<and> seq = (if old + 1 = 0 then 1 else old + 1)
                else seq = 1)))"
proof -
  from run init obtain seq mi1 w1 m mi2 mi3 where
    fs: "format_seq x sbi w mi0 r = Some (seq, mi1, w1)"
    and s1: "set_rec_seq (mi1\<lparr>mrec := Some m\<rparr>) seq = Some mi2"
    and s2: "set_rec_flags mi2 (RECORD_FLAG_IN_USE OR flags) = Some mi3"
    and mi': "mrec mi' = mrec mi3"
    by (auto simp: mi_format_new_def Let_def split: if_splits Option.bind_splits prod.splits)
  have "rec_seqnum mi3 = Some seq"
    using s1 s2 by (rule seq_after_stamp)
  then have "rec_seqnum mi' = Some seq"
    using mi' by (simp add: rec_seqnum_def)
  with format_seq_cases [OF fs] show ?thesis
    by blast
qed


text \<open>Record 30 of a volume with 64 records in use, whose occupant has the sequence number
  7, gets 8.\<close>

theorem format_new_seq_witness:
  "mi_init (ex_ext ex_old) [] ex_blank ex_sbi 30 = (0, ex_blank\<lparr>rno := 30, mrec := Some (replicate 128 0)\<rparr>)
   \<and> map_option fst (mi_format_new (ex_ext ex_old) [] ex_blank ex_sbi 30 0) = Some 0
   \<and> (30 :: CLST) \<noteq> MFT_REC_MFT \<and> MFT_REC_FREE (ex_ext ex_old) \<le> 30
   \<and> ucast (30 :: CLST) < mft_used ex_sbi
   \<and> map_option (rec_seqnum \<circ> fst \<circ> snd) (mi_format_new (ex_ext ex_old) [] ex_blank ex_sbi 30 0)
       = Some (Some 8)"
proof -
  have init: "mi_init (ex_ext ex_old) [] ex_blank ex_sbi 30
      = (0, ex_blank\<lparr>rno := 30, mrec := Some (replicate 128 0)\<rparr>)"
    by code_simp
  have ev: "map_option fst (mi_format_new (ex_ext ex_old) [] ex_blank ex_sbi 30 0) = Some 0"
    by code_simp
  then obtain mi' w' where run:
    "mi_format_new (ex_ext ex_old) [] ex_blank ex_sbi 30 0 = Some (0, mi', w')"
    by (cases "mi_format_new (ex_ext ex_old) [] ex_blank ex_sbi 30 0") auto
  have side: "(30 :: CLST) \<noteq> MFT_REC_MFT" "MFT_REC_FREE (ex_ext ex_old) \<le> 30"
    "ucast (30 :: CLST) < mft_used ex_sbi"
    by (simp_all add: MFT_REC_MFT_def ex_ext_def ex_sbi_def)
  have rd: "mi_read (ex_ext ex_old) ex_sbi [] (ex_blank\<lparr>rno := 30, mrec := Some (replicate 128 0)\<rparr>)
      = Some (0, \<lparr>rno = 30, mrec = Some ex_old, dirty = False, nbufs = 1\<rparr>, [Read_bh 3840 128])"
    by code_simp
  have old: "rec_sign \<lparr>rno = 30, mrec = Some ex_old, dirty = False, nbufs = 1\<rparr>
      = Some NTFS_FILE_SIGNATURE"
    "rec_seqnum \<lparr>rno = 30, mrec = Some ex_old, dirty = False, nbufs = 1\<rparr> = Some 7"
    by code_simp+
  from format_new_seq [OF init run] side rd old have "rec_seqnum mi' = Some 8"
    by auto
  with run init ev side show ?thesis
    by simp
qed

text \<open>The claim as it is written gives every record number of the reserved low range its
  own number. Record 0 lies below \<^verbatim>\<open>MFT_REC_FREE\<close> and gets 1.\<close>

theorem format_new_seq_counterexample:
  "(0 :: CLST) < MFT_REC_FREE (ex_ext ex_old)
   \<and> map_option (rec_seqnum \<circ> fst \<circ> snd) (mi_format_new (ex_ext ex_old) [] ex_blank ex_sbi 0 0)
       = Some (Some 1)
   \<and> (1 :: u16) \<noteq> ucast (0 :: CLST)"
  by code_simp


section \<open>Retiring a record\<close>

lemma inuse_cleared: "(f AND NOT RECORD_FLAG_IN_USE) AND RECORD_FLAG_IN_USE = 0"
  by (simp add: RECORD_FLAG_IN_USE_def word_bw_assocs)

text \<open>
  Claim C9, as amended. For a record number from \<^verbatim>\<open>MFT_REC_RESERVED\<close> up to, not
  including, \<^verbatim>\<open>MFT_REC_FREE\<close>, \<^verbatim>\<open>mi_mark_free\<close> calls \<^verbatim>\<open>ntfs_clear_mft_tail\<close> and clears the
  dirty flag, without a write of its own. For any other record number it clears the in-use
  flag of the record (when there is a buffer), marks it dirty and writes it with
  \<^verbatim>\<open>mi_write(mi, 0)\<close>, that is with \<^verbatim>\<open>wait = 0\<close>, not waiting for completion; the dirty flag
  stays set only if the write fails; then it calls \<^verbatim>\<open>ntfs_mark_rec_free\<close> on the state the
  write has left.
\<close>

theorem mark_free_effects:
  "(MFT_REC_RESERVED x \<le> rno mi \<and> rno mi < MFT_REC_FREE x \<longrightarrow>
      mi_mark_free x w mi
        = Some (mi\<lparr>dirty := False\<rparr>, ntfs_clear_mft_tail x w (rno mi) (rno mi + 1)))
   \<and> (\<not> (MFT_REC_RESERVED x \<le> rno mi \<and> rno mi < MFT_REC_FREE x) \<and> mrec mi = None \<longrightarrow>
      mi_mark_free x w mi = Some (mi, ntfs_mark_rec_free x w (rno mi)))
   \<and> (\<not> (MFT_REC_RESERVED x \<le> rno mi \<and> rno mi < MFT_REC_FREE x) \<and> mrec mi = Some m
        \<and> rec_flags mi = Some f \<longrightarrow>
      (\<exists>m'. wr16 m 0x16 (f AND NOT RECORD_FLAG_IN_USE) = Some m'
         \<and> is_rec_inuse (mi\<lparr>mrec := Some m'\<rparr>) = Some False
         \<and> mi_mark_free x w mi
             = Some (mi\<lparr>mrec := Some m',
                       dirty := fst (ntfs_write_bh_ex x w m' (nbufs mi) 0) \<noteq> 0\<rparr>,
                     ntfs_mark_rec_free x (snd (ntfs_write_bh_ex x w m' (nbufs mi) 0)) (rno mi))))"
proof (intro conjI impI)
  assume "MFT_REC_RESERVED x \<le> rno mi \<and> rno mi < MFT_REC_FREE x"
  then show "mi_mark_free x w mi
      = Some (mi\<lparr>dirty := False\<rparr>, ntfs_clear_mft_tail x w (rno mi) (rno mi + 1))"
    by (simp add: mi_mark_free_def Let_def)
next
  assume "\<not> (MFT_REC_RESERVED x \<le> rno mi \<and> rno mi < MFT_REC_FREE x) \<and> mrec mi = None"
  then show "mi_mark_free x w mi = Some (mi, ntfs_mark_rec_free x w (rno mi))"
    by (auto simp: mi_mark_free_def Let_def)
next
  assume a: "\<not> (MFT_REC_RESERVED x \<le> rno mi \<and> rno mi < MFT_REC_FREE x) \<and> mrec mi = Some m
     \<and> rec_flags mi = Some f"
  then have "rd16 m 0x16 = Some f"
    by (auto simp: rec_flags_def)
  then have "0x16 + 2 \<le> length m"
    by (auto simp: rd16_def load_Some_iff)
  then obtain m' where m': "wr16 m 0x16 (f AND NOT RECORD_FLAG_IN_USE) = Some m'"
    by (auto simp: wr16_def store_def)
  have clr: "clear_rec_inuse mi = Some (mi\<lparr>mrec := Some m'\<rparr>)"
    using a m' by (simp add: clear_rec_inuse_def set_rec_flags_def)
  have "rd16 m' 0x16 = Some (f AND NOT RECORD_FLAG_IN_USE)"
    using m' by (rule rd_wr_same)
  then have off: "is_rec_inuse (mi\<lparr>mrec := Some m'\<rparr>) = Some False"
    by (simp add: is_rec_inuse_def rec_flags_def inuse_cleared)
  have "mi_mark_free x w mi
      = Some (mi\<lparr>mrec := Some m', dirty := fst (ntfs_write_bh_ex x w m' (nbufs mi) 0) \<noteq> 0\<rparr>,
              ntfs_mark_rec_free x (snd (ntfs_write_bh_ex x w m' (nbufs mi) 0)) (rno mi))"
    using a clr by (auto simp: mi_mark_free_def mi_write_def Let_def split: prod.splits)
  with m' off show "\<exists>m'. wr16 m 0x16 (f AND NOT RECORD_FLAG_IN_USE) = Some m'
         \<and> is_rec_inuse (mi\<lparr>mrec := Some m'\<rparr>) = Some False
         \<and> mi_mark_free x w mi
             = Some (mi\<lparr>mrec := Some m',
                       dirty := fst (ntfs_write_bh_ex x w m' (nbufs mi) 0) \<noteq> 0\<rparr>,
                     ntfs_mark_rec_free x (snd (ntfs_write_bh_ex x w m' (nbufs mi) 0)) (rno mi))"
    by blast
qed

text \<open>Retiring record 30: the in-use flag is cleared, the record is written with
  \<^verbatim>\<open>wait = 0\<close>, the slot is marked free.\<close>

theorem mark_free_effects_witness:
  "\<not> (MFT_REC_RESERVED (ex_ext ex_old) \<le> rno (ex_one 0x80)
        \<and> rno (ex_one 0x80) < MFT_REC_FREE (ex_ext ex_old))
   \<and> rec_flags (ex_one 0x80) = Some 1
   \<and> is_rec_inuse (ex_one 0x80) = Some True
   \<and> map_option (is_rec_inuse \<circ> fst) (mi_mark_free (ex_ext ex_old) [] (ex_one 0x80))
       = Some (Some False)
   \<and> map_option snd (mi_mark_free (ex_ext ex_old) [] (ex_one 0x80))
       = Some [Write_bh ((ex_bytes 0x80)[0x16 := 0]) 1 0,
               Mark_rec_free 30]"
proof -
  let ?m = "ex_bytes 0x80"
  have out: "\<not> (MFT_REC_RESERVED (ex_ext ex_old) \<le> rno (ex_one 0x80)
        \<and> rno (ex_one 0x80) < MFT_REC_FREE (ex_ext ex_old))"
    by (simp add: ex_ext_def ex_one_def ex_mi_def)
  have buf: "mrec (ex_one 0x80) = Some ?m"
    by (simp add: ex_one_def ex_mi_def)
  have fl: "rec_flags (ex_one 0x80) = Some 1"
    by code_simp
  have was: "is_rec_inuse (ex_one 0x80) = Some True"
    by code_simp
  have log: "map_option snd (mi_mark_free (ex_ext ex_old) [] (ex_one 0x80))
       = Some [Write_bh (?m[0x16 := 0]) 1 0, Mark_rec_free 30]"
    by code_simp
  from mark_free_effects [of "ex_ext ex_old" "ex_one 0x80" "[]" ?m 1] out buf fl
  obtain m' where "is_rec_inuse ((ex_one 0x80)\<lparr>mrec := Some m'\<rparr>) = Some False"
    and "mi_mark_free (ex_ext ex_old) [] (ex_one 0x80)
      = Some ((ex_one 0x80)\<lparr>mrec := Some m',
                dirty := fst (ntfs_write_bh_ex (ex_ext ex_old) [] m' (nbufs (ex_one 0x80)) 0) \<noteq> 0\<rparr>,
              ntfs_mark_rec_free (ex_ext ex_old)
                (snd (ntfs_write_bh_ex (ex_ext ex_old) [] m' (nbufs (ex_one 0x80)) 0))
                (rno (ex_one 0x80)))"
    by blast
  then have "map_option (is_rec_inuse \<circ> fst) (mi_mark_free (ex_ext ex_old) [] (ex_one 0x80))
       = Some (Some False)"
    by (simp add: is_rec_inuse_def rec_flags_def)
  with out fl was log show ?thesis
    by blast
qed

text \<open>The claim as it is written has the record written synchronously. The one write that
  retiring record 30 issues carries \<^verbatim>\<open>wait = 0\<close>, the last argument of the logged call.\<close>

theorem mark_free_counterexample:
  "map_option snd (mi_mark_free (ex_ext ex_old) [] (ex_one 0x80))
     = Some [Write_bh ((ex_bytes 0x80)[0x16 := 0]) 1 0,
             Mark_rec_free 30]
   \<and> \<not> (MFT_REC_RESERVED (ex_ext ex_old) \<le> rno (ex_one 0x80)
          \<and> rno (ex_one 0x80) < MFT_REC_FREE (ex_ext ex_old))"
  by code_simp

section \<open>What the enumerator rejects\<close>

lemma nonres_ex_min: "SIZEOF_NONRESIDENT_EX \<le> y \<Longrightarrow> SIZEOF_NONRESIDENT \<le> y"
  by (simp add: SIZEOF_NONRESIDENT_EX_def SIZEOF_NONRESIDENT_def word_le_nat_alt)

lemma enum_check_Some:
  assumes "enum_check mi used a off = Some (Some a')"
  shows "a' = a \<and> (\<exists>ty asize nr.
      attr_type mi a = Some ty \<and> attr_size mi a = Some asize \<and> attr_non_res mi a = Some nr
      \<and> off + 8 \<le> used \<and> ty \<noteq> ATTR_END \<and> ty AND 0xf = 0 \<and> ty \<le> 0x100
      \<and> off + asize \<le> used
      \<and> (nr = 0 \<longrightarrow> SIZEOF_RESIDENT \<le> asize)
      \<and> (nr \<noteq> 0 \<longrightarrow> SIZEOF_NONRESIDENT \<le> asize + 8))"
  using assms unfolding enum_check_def
  by (auto simp: not_less dest: nonres_ex_min split: if_splits Option.bind_splits)

lemma enum_pos:
  assumes "mi_enum_attr mi prev = Some (Some a)" and "rec_used mi = Some used"
  shows "enum_check mi used a (PtrOffset a) = Some (Some a)"
proof -
  have next_pos: "enum_check mi used (p + unat x) (PtrOffset p + x)
      = enum_check mi used (p + unat x) (PtrOffset (p + unat x))" for p x
    by (simp add: PtrOffset_def)
  have first_pos: "enum_check mi used (unat (ucast x :: u32)) (ucast x)
      = enum_check mi used (unat (ucast x :: u32)) (PtrOffset (unat (ucast x :: u32)))"
    for x :: u16
    by (simp add: PtrOffset_def)
  from assms obtain b where chk: "enum_check mi used b (PtrOffset b) = Some (Some a)"
    unfolding mi_enum_attr_def
    by (auto simp: Let_def next_pos first_pos
        split: if_splits Option.bind_splits option.splits prod.splits)
  from enum_check_Some [OF chk] have "a = b"
    by simp
  with chk show ?thesis
    by simp
qed

lemma enum_first_reject:
  assumes "rec_used mi = Some used" and "rec_total mi = Some tot"
    and "rec_attr_off mi = Some aoff" and "rec_flags mi = Some fl"
    and "tot < used \<or> used \<le> ucast aoff \<or> ucast aoff < MFTRECORD_FIXUP_OFFSET_1
      \<or> \<not> IsDwordAligned (ucast aoff) \<or> fl AND RECORD_FLAG_IN_USE = 0"
  shows "mi_enum_attr mi None = Some None"
  using assms by (auto simp: mi_enum_attr_def is_rec_inuse_def Let_def)

lemma end_in_used:
  fixes off asize used :: u32
  assumes "off + asize \<le> used" and "unat off + unat asize < 2 ^ 32"
  shows "unat off + unat asize \<le> unat used"
  using assms unat_add_lem [of off asize] by (simp add: word_le_nat_alt)

text \<open>
  Claim C6, as amended. The first call of \<^verbatim>\<open>mi_enum_attr\<close> (with \<^verbatim>\<open>attr = NULL\<close>) returns
  \<^verbatim>\<open>NULL\<close> when the in-use flag is clear, when \<^verbatim>\<open>used\<close> exceeds \<^verbatim>\<open>total\<close>, or when
  \<^verbatim>\<open>attr_off\<close> is not below \<^verbatim>\<open>used\<close>, is below \<^verbatim>\<open>MFTRECORD_FIXUP_OFFSET_1\<close>, or is not a
  multiple of 4. On any call, an attribute is returned only if its first 8 bytes end within
  \<^verbatim>\<open>used\<close>, its type has the low four bits clear and is at most \<^verbatim>\<open>0x100\<close>, its end (offset
  plus size, in 32 bits) is not past \<^verbatim>\<open>used\<close>, and its size is at least \<^verbatim>\<open>SIZEOF_RESIDENT\<close>
  when it is resident and at least \<^verbatim>\<open>SIZEOF_NONRESIDENT - 8\<close> when it is not; a violation of
  one of these gives \<^verbatim>\<open>NULL\<close>, there being no error result. The alignment of an attribute
  after the first, and of any attribute's size, is not tested.
\<close>

theorem enum_rejects:
  assumes "rec_used mi = Some used"
  shows "(rec_total mi = Some tot \<and> rec_attr_off mi = Some aoff \<and> rec_flags mi = Some fl
       \<and> (fl AND RECORD_FLAG_IN_USE = 0 \<or> tot < used \<or> used \<le> ucast aoff
            \<or> ucast aoff < MFTRECORD_FIXUP_OFFSET_1 \<or> \<not> IsDwordAligned (ucast aoff))
       \<longrightarrow> mi_enum_attr mi None = Some None)
    \<and> (mi_enum_attr mi prev = Some (Some a) \<longrightarrow>
         (\<exists>ty asize nr.
            attr_type mi a = Some ty \<and> attr_size mi a = Some asize
            \<and> attr_non_res mi a = Some nr
            \<and> PtrOffset a + 8 \<le> used
            \<and> ty AND 0xf = 0 \<and> ty \<le> 0x100
            \<and> PtrOffset a + asize \<le> used
            \<and> (unat (PtrOffset a) + unat asize < 2 ^ 32 \<longrightarrow>
                  unat (PtrOffset a) + unat asize \<le> unat used)
            \<and> (nr = 0 \<longrightarrow> SIZEOF_RESIDENT \<le> asize)
            \<and> (nr \<noteq> 0 \<longrightarrow> SIZEOF_NONRESIDENT \<le> asize + 8)))"
proof (intro conjI impI)
  assume "rec_total mi = Some tot \<and> rec_attr_off mi = Some aoff \<and> rec_flags mi = Some fl
       \<and> (fl AND RECORD_FLAG_IN_USE = 0 \<or> tot < used \<or> used \<le> ucast aoff
            \<or> ucast aoff < MFTRECORD_FIXUP_OFFSET_1 \<or> \<not> IsDwordAligned (ucast aoff))"
  with assms show "mi_enum_attr mi None = Some None"
    by (intro enum_first_reject [of mi used tot aoff fl]) auto
next
  assume "mi_enum_attr mi prev = Some (Some a)"
  from enum_check_Some [OF enum_pos [OF this assms]] end_in_used
  show "\<exists>ty asize nr.
            attr_type mi a = Some ty \<and> attr_size mi a = Some asize
            \<and> attr_non_res mi a = Some nr
            \<and> PtrOffset a + 8 \<le> used
            \<and> ty AND 0xf = 0 \<and> ty \<le> 0x100
            \<and> PtrOffset a + asize \<le> used
            \<and> (unat (PtrOffset a) + unat asize < 2 ^ 32 \<longrightarrow>
                  unat (PtrOffset a) + unat asize \<le> unat used)
            \<and> (nr = 0 \<longrightarrow> SIZEOF_RESIDENT \<le> asize)
            \<and> (nr \<noteq> 0 \<longrightarrow> SIZEOF_NONRESIDENT \<le> asize + 8)"
    by blast
qed


text \<open>A record that is not in use yields nothing; the record with one attribute yields
  it, and the attribute passes the tests.\<close>

theorem enum_rejects_witness:
  "rec_used ex_free = Some 0x50 \<and> rec_total ex_free = Some 0x80
   \<and> rec_attr_off ex_free = Some 0x30 \<and> rec_flags ex_free = Some 0
   \<and> mi_enum_attr ex_free None = Some None
   \<and> rec_used (ex_one 0x80) = Some 0x50
   \<and> mi_enum_attr (ex_one 0x80) None = Some (Some 0x30)
   \<and> attr_type (ex_one 0x80) 0x30 = Some 0x10
   \<and> attr_size (ex_one 0x80) 0x30 = Some 0x18
   \<and> attr_non_res (ex_one 0x80) 0x30 = Some 0
   \<and> PtrOffset 0x30 + 0x18 \<le> (0x50 :: u32)"
proof -
  have hdr: "rec_used ex_free = Some 0x50" "rec_total ex_free = Some 0x80"
    "rec_attr_off ex_free = Some 0x30" "rec_flags ex_free = Some 0"
    by code_simp+
  have "(0 :: u16) AND RECORD_FLAG_IN_USE = 0"
    by simp
  with enum_rejects [OF hdr(1), of "0x80" "0x30" 0] hdr
  have none: "mi_enum_attr ex_free None = Some None"
    by blast
  have used: "rec_used (ex_one 0x80) = Some 0x50"
    and first: "mi_enum_attr (ex_one 0x80) None = Some (Some 0x30)"
    and vals: "attr_type (ex_one 0x80) 0x30 = Some 0x10" "attr_size (ex_one 0x80) 0x30 = Some 0x18"
      "attr_non_res (ex_one 0x80) 0x30 = Some 0"
    by code_simp+
  from enum_rejects [OF used, of "0x80" "0x30" 0 None "0x30"] first vals
  have "PtrOffset 0x30 + 0x18 \<le> (0x50 :: u32)"
    by auto
  with hdr none used first vals show ?thesis
    by blast
qed

text \<open>The claim as it is written has a misaligned attribute rejected on any call. In the
  record whose first attribute has the size \<^verbatim>\<open>0x19\<close>, the first call returns that attribute
  and the second call returns the attribute at \<^verbatim>\<open>0x49\<close>, which is aligned neither to 8 nor
  to 4 bytes.\<close>

theorem enum_rejects_counterexample:
  "mi_enum_attr ex_odd None = Some (Some 0x30)
   \<and> attr_size ex_odd 0x30 = Some 0x19
   \<and> QuadAlign 0x19 \<noteq> 0x19
   \<and> mi_enum_attr ex_odd (Some 0x30) = Some (Some 0x49)
   \<and> \<not> IsDwordAligned (PtrOffset 0x49)
   \<and> QuadAlign (PtrOffset 0x49) \<noteq> PtrOffset 0x49"
  by code_simp

section \<open>What the locator finds\<close>

lemma attrs_from_Nil: "attrs_from mi s = Some [] \<Longrightarrow> mi_enum_attr mi s = Some None"
  by (subst (asm) attrs_from.simps) (auto split: Option.bind_splits option.splits)

lemma attrs_from_Cons:
  "attrs_from mi s = Some (a # as) \<Longrightarrow>
     mi_enum_attr mi s = Some (Some a) \<and> attrs_from mi (Some a) = Some as"
  by (subst (asm) attrs_from.simps) (auto split: Option.bind_splits option.splits)

lemma find_match_eq:
  assumes "attr_name_len mi a = Some anl"
    and "unat anl = nl \<and> nl \<noteq> 0 \<longrightarrow> attr_name mi a nl = Some an"
    and "aid \<noteq> None \<longrightarrow> attr_id mi a = Some ai"
    and "2 * nl \<le> length name"
  shows "find_match mi a name nl aid
    = Some (unat anl = nl \<and> (nl = 0 \<or> an = take (2 * nl) name) \<and> (aid = None \<or> aid = Some ai))"
  using assms by (cases aid) (auto simp: find_match_def)

text \<open>
  Claim C7. Let \<open>as\<close> be the attributes that the enumerator yields after \<open>start\<close>, with the
  types \<open>tyf\<close>, name lengths \<open>nlf\<close>, names \<open>nmf\<close> and ids \<open>idf\<close>. \<^verbatim>\<open>mi_find_attr\<close> returns the
  first of them whose type is the requested one, whose name has the requested length and
  the requested bytes, and whose id is the requested one when an id is given; but if an
  attribute of a greater type comes before any such attribute, it returns \<^verbatim>\<open>NULL\<close> there,
  whatever follows. It returns \<^verbatim>\<open>NULL\<close> at the end of the list as well.
\<close>

theorem find_first_match:
  assumes "attrs_from mi start = Some as"
    and "\<forall>a\<in>set as. attr_type mi a = Some (tyf a)
          \<and> (tyf a = ty \<longrightarrow> attr_name_len mi a = Some (nlf a)
                \<and> (unat (nlf a) = nl \<and> nl \<noteq> 0 \<longrightarrow> attr_name mi a nl = Some (nmf a))
                \<and> (aid \<noteq> None \<longrightarrow> attr_id mi a = Some (idf a)))"
    and "2 * nl \<le> length name"
  shows "mi_find_attr mi start ty name nl aid
    = Some (case List.find (\<lambda>a. ty < tyf a
                \<or> (tyf a = ty \<and> unat (nlf a) = nl \<and> (nl = 0 \<or> nmf a = take (2 * nl) name)
                      \<and> (aid = None \<or> aid = Some (idf a)))) as of
              None \<Rightarrow> None
            | Some a \<Rightarrow> if ty < tyf a then None else Some a)"
  using assms(1,2)
proof (induction as arbitrary: start)
  case Nil
  from attrs_from_Nil [OF Nil(1)] show ?case
    by (subst mi_find_attr.simps) simp
next
  case (Cons a as)
  from attrs_from_Cons [OF Cons.prems(1)]
  have en: "mi_enum_attr mi start = Some (Some a)" and rest: "attrs_from mi (Some a) = Some as"
    by simp_all
  from Cons.prems(2) have ty: "attr_type mi a = Some (tyf a)"
    by simp
  note IH = Cons.IH [OF rest]
  consider (gt) "ty < tyf a" | (lt) "tyf a < ty" | (eq) "tyf a = ty"
    by (metis linorder_neqE)
  then show ?case
  proof cases
    case gt
    then show ?thesis
      by (subst mi_find_attr.simps) (simp add: en ty)
  next
    case lt
    then have "\<not> ty < tyf a" "tyf a \<noteq> ty"
      by auto
    then show ?thesis
      using IH Cons.prems(2) lt by (subst mi_find_attr.simps) (simp add: en ty)
  next
    case eq
    from Cons.prems(2) eq have
      "attr_name_len mi a = Some (nlf a)"
      "unat (nlf a) = nl \<and> nl \<noteq> 0 \<longrightarrow> attr_name mi a nl = Some (nmf a)"
      "aid \<noteq> None \<longrightarrow> attr_id mi a = Some (idf a)"
      by simp_all
    from find_match_eq [OF this assms(3)] show ?thesis
      using IH Cons.prems(2) eq by (subst mi_find_attr.simps) (auto simp add: en ty)
  qed
qed

lemma ex_four_attrs: "attrs_from ex_four None = Some [0x30, 0x48, 0x60, 0x78]"
  by code_simp

lemma ex_four_ids: "\<forall>a\<in>set [0x30, 0x48, 0x60, 0x78]. attr_id ex_four a = Some (ex_ids a)"
  by code_simp

lemma ex_four_fields:
  "\<forall>a\<in>set [0x30, 0x48, 0x60, 0x78]. attr_type ex_four a = Some (ex_types a)
      \<and> (ex_types a = ty \<longrightarrow> attr_name_len ex_four a = Some ((\<lambda>_. 0) a)
            \<and> (unat ((\<lambda>_. 0 :: u8) a) = 0 \<and> (0 :: nat) \<noteq> 0 \<longrightarrow>
                  attr_name ex_four a 0 = Some ((\<lambda>_. []) a))
            \<and> (aid \<noteq> None \<longrightarrow> attr_id ex_four a = Some (ex_ids a)))"
proof -
  have "\<forall>a\<in>set [0x30, 0x48, 0x60, 0x78]. attr_type ex_four a = Some (ex_types a)
      \<and> attr_name_len ex_four a = Some 0 \<and> attr_id ex_four a = Some (ex_ids a)"
    by code_simp
  then show ?thesis
    by simp
qed

text \<open>In the record with four attributes: the attribute of type \<^verbatim>\<open>0x30\<close> and id 3 is the
  third one; without an id the second one is found, and after it the third; type \<^verbatim>\<open>0x20\<close>
  stops at the first attribute of type \<^verbatim>\<open>0x30\<close>.\<close>

theorem find_first_match_witness:
  "attrs_from ex_four None = Some [0x30, 0x48, 0x60, 0x78]
   \<and> map (attr_type ex_four) [0x30, 0x48, 0x60, 0x78] = [Some 0x10, Some 0x30, Some 0x30, Some 0x80]
   \<and> map (attr_id ex_four) [0x30, 0x48, 0x60, 0x78] = [Some 0, Some 1, Some 3, Some 4]
   \<and> mi_find_attr ex_four None 0x30 [] 0 (Some 3) = Some (Some 0x60)
   \<and> mi_find_attr ex_four None 0x30 [] 0 None = Some (Some 0x48)
   \<and> mi_find_attr ex_four (Some 0x48) 0x30 [] 0 None = Some (Some 0x60)
   \<and> mi_find_attr ex_four None 0x20 [] 0 None = Some None
   \<and> mi_find_attr ex_four None 0x80 [] 0 None = Some (Some 0x78)"
proof -
  have tys: "map (attr_type ex_four) [0x30, 0x48, 0x60, 0x78]
      = [Some 0x10, Some 0x30, Some 0x30, Some 0x80]"
    and ids: "map (attr_id ex_four) [0x30, 0x48, 0x60, 0x78] = [Some 0, Some 1, Some 3, Some 4]"
    by code_simp+
  have len: "2 * 0 \<le> length ([] :: bytes)"
    by simp
  have after: "attrs_from ex_four (Some 0x48) = Some [0x60, 0x78]"
    by code_simp
  have fields: "\<forall>a\<in>set [0x60, 0x78]. attr_type ex_four a = Some (ex_types a)
      \<and> (ex_types a = ty \<longrightarrow> attr_name_len ex_four a = Some ((\<lambda>_. 0) a)
            \<and> (unat ((\<lambda>_. 0 :: u8) a) = 0 \<and> (0 :: nat) \<noteq> 0 \<longrightarrow>
                  attr_name ex_four a 0 = Some ((\<lambda>_. []) a))
            \<and> (aid \<noteq> None \<longrightarrow> attr_id ex_four a = Some (ex_ids a)))" for ty aid
    using ex_four_fields [of ty aid] by simp
  have "mi_find_attr ex_four None 0x30 [] 0 (Some 3) = Some (Some 0x60)"
    "mi_find_attr ex_four None 0x30 [] 0 None = Some (Some 0x48)"
    "mi_find_attr ex_four None 0x20 [] 0 None = Some None"
    "mi_find_attr ex_four None 0x80 [] 0 None = Some (Some 0x78)"
    by (simp_all add: find_first_match [OF ex_four_attrs ex_four_fields len]
        ex_types_def ex_ids_def)
  moreover have "mi_find_attr ex_four (Some 0x48) 0x30 [] 0 None = Some (Some 0x60)"
    by (simp add: find_first_match [OF after fields len] ex_types_def ex_ids_def)
  ultimately show ?thesis
    using ex_four_attrs tys ids by blast
qed

section \<open>What the id allocator returns\<close>

lemma scan_suffix:
  assumes "attrs_from mi attr = Some rest"
    and "\<forall>a\<in>set rest. attr_id mi a = Some (idf a)"
  shows "new_attt_id_scan mi free mx attr =
     (if free \<in> idf ` set rest
      then new_attt_id_scan mi (free + 1)
             (foldl max mx (map idf (takeWhile (\<lambda>a. idf a \<noteq> free) rest))) None
      else do {
        mi' \<leftarrow> set_rec_next_attr_id mi (foldl max mx (map idf rest) + 1);
        Some (free, mi'\<lparr>dirty := True\<rparr>) })"
  using assms
proof (induction rest arbitrary: attr mx)
  case Nil
  from attrs_from_Nil [OF Nil(1)] show ?case
    by (subst new_attt_id_scan.simps) simp
next
  case (Cons a rest)
  from attrs_from_Cons [OF Cons.prems(1)]
  have en: "mi_enum_attr mi attr = Some (Some a)" and rest: "attrs_from mi (Some a) = Some rest"
    by simp_all
  from Cons.prems(2) have aid: "attr_id mi a = Some (idf a)" and ids: "\<forall>a\<in>set rest. attr_id mi a = Some (idf a)"
    by simp_all
  have mx: "(if mx < idf a then idf a else mx) = max mx (idf a)"
    by (auto simp: max_def)
  show ?case
  proof (cases "idf a = free")
    case True
    then show ?thesis
      by (subst new_attt_id_scan.simps) (simp add: en aid)
  next
    case False
    with Cons.IH [OF rest ids, of "max mx (idf a)"] show ?thesis
      by (subst new_attt_id_scan.simps) (simp add: en aid mx)
  qed
qed


lemma foldl_max_in: "foldl max mx xs \<in> insert mx (set xs)" for mx :: "'a :: linorder"
  by (induction xs arbitrary: mx) (auto simp: max_def)

lemma foldl_max_Max: "foldl max mx xs = Max (insert mx (set xs))" for mx :: "'a :: linorder"
proof (induction xs arbitrary: mx)
  case Nil
  show ?case by simp
next
  case (Cons x xs)
  have "Max (insert (max mx x) (set xs)) = Max (insert mx (insert x (set xs)))"
    by (cases "set xs = {}") (simp_all add: max.assoc)
  with Cons show ?case
    by simp
qed

lemma Max_zero_absorb:
  fixes mx :: u16
  assumes "mx \<in> insert 0 S" and "finite S"
  shows "Max (insert mx S) = Max (insert 0 S)"
proof (cases "mx = 0")
  case True
  then show ?thesis by simp
next
  case False
  with assms have "mx \<in> S" by simp
  then have "insert mx S = S" by auto
  moreover have "Max (insert 0 S) = Max S"
    using \<open>mx \<in> S\<close> assms(2) by (subst Max_insert) (auto simp: max_def)
  ultimately show ?thesis by simp
qed

lemma scan_restart:
  assumes en: "attrs_from mi None = Some as"
    and ids: "\<forall>a\<in>set as. attr_id mi a = Some (idf a)"
    and k: "k \<notin> idf ` set as" "\<forall>i<k. i \<in> idf ` set as"
    and free: "free \<le> k" and mx: "mx \<in> insert 0 (idf ` set as)"
  shows "new_attt_id_scan mi free mx None = do {
      mi' \<leftarrow> set_rec_next_attr_id mi (Max (insert 0 (idf ` set as)) + 1);
      Some (k, mi'\<lparr>dirty := True\<rparr>) }"
  using free mx
proof (induction "unat k - unat free" arbitrary: free mx)
  case 0
  then have "free = k"
    by (simp add: word_le_nat_alt word_unat_eq_iff)
  with k(1) have "free \<notin> idf ` set as"
    by simp
  moreover have "foldl max mx (map idf as) = Max (insert 0 (idf ` set as))"
    using Max_zero_absorb [OF "0.prems"(2)] by (simp add: foldl_max_Max)
  ultimately show ?case
    using scan_suffix [OF en ids, of free mx] \<open>free = k\<close> by simp
next
  case (Suc n)
  then have lt: "free < k"
    by (simp add: word_less_nat_alt)
  with k(2) have used: "free \<in> idf ` set as"
    by simp
  have "unat free < unat k" and "unat k < 2 ^ 16"
    using lt unsigned_less [of k] by (simp_all add: word_less_nat_alt)
  then have step: "unat (free + 1) = unat free + 1"
    using unat_add_lem [of free 1] by simp
  with lt have le: "free + 1 \<le> k"
    by (simp add: word_le_nat_alt word_less_nat_alt)
  have n: "n = unat k - unat (free + 1)"
    using Suc(2) step by simp
  let ?mx = "foldl max mx (map idf (takeWhile (\<lambda>a. idf a \<noteq> free) as))"
  have "?mx \<in> insert mx (set (map idf (takeWhile (\<lambda>a. idf a \<noteq> free) as)))"
    by (rule foldl_max_in)
  moreover have "set (takeWhile (\<lambda>a. idf a \<noteq> free) as) \<subseteq> set as"
    by (auto dest: set_takeWhileD)
  ultimately have "?mx \<in> insert 0 (idf ` set as)"
    using Suc.prems(2) by auto
  from Suc(1) [OF n le this] show ?case
    using scan_suffix [OF en ids, of free mx] used by simp
qed


lemma next_attr_id_write:
  assumes "rec_next_attr_id mi = Some n"
  shows "\<exists>mi'. set_rec_next_attr_id mi v = Some mi' \<and> rec_next_attr_id mi' = Some v
    \<and> dirty mi' = dirty mi"
proof -
  from assms obtain m where m: "mrec mi = Some m" and rd: "rd16 m 0x28 = Some n"
    by (auto simp: rec_next_attr_id_def split: Option.bind_splits)
  from rd have "0x28 + 2 \<le> length m"
    by (auto simp: rd16_def load_Some_iff)
  then obtain m' where m': "wr16 m 0x28 v = Some m'"
    by (auto simp: wr16_def store_def)
  from rd_wr_same(2) [OF m'] m m' show ?thesis
    by (simp add: set_rec_next_attr_id_def rec_next_attr_id_def)
qed

lemma least_free_0134:
  fixes r :: u16
  assumes "r \<notin> {0, 1, 3, 4}" and "\<forall>i<r. i \<in> {0, 1, 3, 4}"
  shows "r = 2"
proof -
  have "\<not> 2 < r"
    using assms(2) by auto
  then have "unat r \<le> 2"
    by (simp add: word_less_nat_alt)
  then have "unat r = 0 \<or> unat r = 1 \<or> unat r = 2"
    by linarith
  then have "r = 0 \<or> r = 1 \<or> r = 2"
    by (simp add: word_unat_eq_iff)
  moreover have "r \<noteq> 0" "r \<noteq> 1"
    using assms(1) by simp_all
  ultimately show ?thesis
    by simp
qed

text \<open>
  Claim C2. When \<^verbatim>\<open>next_attr_id\<close> is below \<^verbatim>\<open>0x7FFF\<close>, \<^verbatim>\<open>mi_new_attt_id\<close> returns it and
  stores it incremented. Otherwise, on a record whose enumeration yields the attributes
  \<open>as\<close> with the ids \<open>idf\<close>, not all 16-bit values being taken, it returns the least id that
  no attribute has, and stores one more (in 16 bits) than the greatest id of an attribute,
  or 1 if there is no attribute. With the ids 0, 1, 3, 4 it returns 2 and stores 5.
\<close>

theorem new_attt_id_allocates:
  assumes "rec_next_attr_id mi = Some n"
  shows "(n < 0x7FFF \<longrightarrow>
       (\<exists>mi'. mi_new_attt_id mi = Some (n, mi') \<and> rec_next_attr_id mi' = Some (n + 1)))
    \<and> (0x7FFF \<le> n \<and> attrs_from mi None = Some as
         \<and> (\<forall>a\<in>set as. attr_id mi a = Some (idf a)) \<and> idf ` set as \<noteq> UNIV \<longrightarrow>
       (\<exists>r mi'. mi_new_attt_id mi = Some (r, mi')
          \<and> r \<notin> idf ` set as \<and> (\<forall>i<r. i \<in> idf ` set as)
          \<and> rec_next_attr_id mi' = Some (Max (insert 0 (idf ` set as)) + 1)
          \<and> (idf ` set as = {0, 1, 3, 4} \<longrightarrow> r = 2 \<and> rec_next_attr_id mi' = Some 5)))"
proof (intro conjI impI)
  assume "n < 0x7FFF"
  with next_attr_id_write [OF assms, of "n + 1"] assms
  show "\<exists>mi'. mi_new_attt_id mi = Some (n, mi') \<and> rec_next_attr_id mi' = Some (n + 1)"
    by (auto simp: mi_new_attt_id_def)
next
  assume a: "0x7FFF \<le> n \<and> attrs_from mi None = Some as
         \<and> (\<forall>a\<in>set as. attr_id mi a = Some (idf a)) \<and> idf ` set as \<noteq> UNIV"
  let ?S = "idf ` set as"
  from a obtain j where "j \<notin> ?S"
    by auto
  then obtain k where k: "k \<notin> ?S" "\<forall>i<k. i \<in> ?S"
    using exists_least_iff [of "\<lambda>i. i \<notin> ?S"] by auto
  from next_attr_id_write [OF assms, of "Max (insert 0 ?S) + 1"]
  obtain mi1 where w: "set_rec_next_attr_id mi (Max (insert 0 ?S) + 1) = Some mi1"
    and rd: "rec_next_attr_id mi1 = Some (Max (insert 0 ?S) + 1)"
    by blast
  have "new_attt_id_scan mi 0 0 None = Some (k, mi1\<lparr>dirty := True\<rparr>)"
    using scan_restart [of mi as idf k 0 0] a k w by simp
  with a assms have run: "mi_new_attt_id mi = Some (k, mi1\<lparr>dirty := True\<rparr>)"
    by (simp add: mi_new_attt_id_def not_less [symmetric])
  have rd': "rec_next_attr_id (mi1\<lparr>dirty := True\<rparr>) = Some (Max (insert 0 ?S) + 1)"
    using rd by (simp add: rec_next_attr_id_def)
  have "?S = {0, 1, 3, 4} \<longrightarrow> k = 2 \<and> rec_next_attr_id (mi1\<lparr>dirty := True\<rparr>) = Some 5"
    using k least_free_0134 [of k] rd' by auto
  with run k rd' show "\<exists>r mi'. mi_new_attt_id mi = Some (r, mi')
          \<and> r \<notin> ?S \<and> (\<forall>i<r. i \<in> ?S)
          \<and> rec_next_attr_id mi' = Some (Max (insert 0 ?S) + 1)
          \<and> (?S = {0, 1, 3, 4} \<longrightarrow> r = 2 \<and> rec_next_attr_id mi' = Some 5)"
    by blast
qed

text \<open>The record with the ids 0, 1, 3, 4 and the counter at \<^verbatim>\<open>0x7FFF\<close>, and the record
  with the counter at 1.\<close>

theorem new_attt_id_allocates_witness:
  "rec_next_attr_id ex_four = Some 0x7FFF
   \<and> attrs_from ex_four None = Some [0x30, 0x48, 0x60, 0x78]
   \<and> map (attr_id ex_four) [0x30, 0x48, 0x60, 0x78] = [Some 0, Some 1, Some 3, Some 4]
   \<and> map_option fst (mi_new_attt_id ex_four) = Some 2
   \<and> map_option (rec_next_attr_id \<circ> snd) (mi_new_attt_id ex_four) = Some (Some 5)
   \<and> rec_next_attr_id (ex_one 0x80) = Some 1
   \<and> map_option fst (mi_new_attt_id (ex_one 0x80)) = Some 1
   \<and> map_option (rec_next_attr_id \<circ> snd) (mi_new_attt_id (ex_one 0x80)) = Some (Some 2)"
proof -
  have cnt: "rec_next_attr_id ex_four = Some 0x7FFF"
    by code_simp
  have ids: "map (attr_id ex_four) [0x30, 0x48, 0x60, 0x78] = [Some 0, Some 1, Some 3, Some 4]"
    by code_simp
  have img: "ex_ids ` set [0x30, 0x48, 0x60, 0x78] = {0, 1, 3, 4}"
    by (auto simp: ex_ids_def)
  have "(2 :: u16) \<notin> ex_ids ` set [0x30, 0x48, 0x60, 0x78]"
    by (simp add: ex_ids_def)
  then have "ex_ids ` set [0x30, 0x48, 0x60, 0x78] \<noteq> UNIV"
    by blast
  with new_attt_id_allocates [OF cnt, of "[0x30, 0x48, 0x60, 0x78]" ex_ids]
    ex_four_attrs ex_four_ids img
  obtain r mi' where "mi_new_attt_id ex_four = Some (r, mi')" "r = 2"
    "rec_next_attr_id mi' = Some 5"
    by auto
  then have slow: "map_option fst (mi_new_attt_id ex_four) = Some 2"
    "map_option (rec_next_attr_id \<circ> snd) (mi_new_attt_id ex_four) = Some (Some 5)"
    by simp_all
  have one: "rec_next_attr_id (ex_one 0x80) = Some 1"
    by code_simp
  from new_attt_id_allocates [OF one, of "[]" ex_ids]
  obtain mi1 where "mi_new_attt_id (ex_one 0x80) = Some (1, mi1)"
    "rec_next_attr_id mi1 = Some (1 + 1)"
    by auto
  then have fast: "map_option fst (mi_new_attt_id (ex_one 0x80)) = Some 1"
    "map_option (rec_next_attr_id \<circ> snd) (mi_new_attt_id (ex_one 0x80)) = Some (Some 2)"
    by simp_all
  from cnt ex_four_attrs ids slow one fast show ?thesis
    by blast
qed

section \<open>Arithmetic of sizes\<close>

lemma QuadAlign_low: "QuadAlign n AND 7 = 0"
  unfolding QuadAlign_def
  by (rule bit_word_eqI) (auto simp: bit_simps)

lemma and_not_self:
  fixes d c :: "32 word"
  assumes "d AND c = 0"
  shows "d AND NOT c = d"
proof -
  have "bit (d AND c) n = bit (0 :: 32 word) n" for n
    using assms by simp
  then have *: "\<not> (bit d n \<and> bit c n)" for n
    by (simp add: bit_and_iff)
  show ?thesis
    by (rule bit_word_eqI) (use * in \<open>auto simp: bit_and_iff bit_not_iff\<close>)
qed

lemma QuadAlign_aligned: "d AND 7 = 0 \<Longrightarrow> QuadAlign d = d"
proof -
  assume a: "d AND 7 = 0"
  then have "d + 7 = d OR 7"
    by (rule disjunctive_add_eq_or)
  moreover have "(d OR 7) AND NOT 7 = d AND NOT 7"
    by (rule bit_word_eqI) (auto simp: bit_simps)
  ultimately show ?thesis
    using and_not_self [OF a] by (simp add: QuadAlign_def)
qed

lemma QuadAlign_idem: "QuadAlign (QuadAlign n) = QuadAlign n"
  by (rule QuadAlign_aligned) (rule QuadAlign_low)

lemma sint_nonneg: "0 \<le> sint w \<Longrightarrow> sint w = uint w" for w :: "32 word"
proof -
  assume "0 \<le> sint w"
  then have "\<not> bit (uint w) 31"
    by (simp add: sint_uint)
  then have "signed_take_bit 31 (uint w) = take_bit 31 (uint w)"
    by (rule signed_take_bit_eq_if_positive)
  moreover have "take_bit 31 (uint w) = uint w"
    using \<open>\<not> bit (uint w) 31\<close>
    by (rule_tac bit_eqI) (auto simp: bit_take_bit_iff bit_uint_iff dest: bit_imp_le_length
        simp: less_Suc_eq [of _ 31, simplified] not_less order.order_iff_strict)
  ultimately show ?thesis
    by (simp add: sint_uint)
qed

lemma sint_neg_pos:
  fixes d :: "32 word"
  assumes "d \<noteq> 0" and "0 \<le> sint d"
  shows "sint (- d) < 0" and "- d \<noteq> 0"
proof -
  from assms have pos: "0 < sint d"
    by (metis less_le signed_eq_0_iff)
  have "sint d < 2 ^ 31"
    using sint_lt [of d] by simp
  with pos have "signed_take_bit 31 (- sint d) = - sint d"
    by (intro signed_take_bit_int_eq_self) simp_all
  then have "sint (- d) = - sint d"
    by (simp add: sint_word_ariths)
  with pos show "sint (- d) < 0"
    by simp
  from assms(1) show "- d \<noteq> 0"
    by simp
qed

lemma unat_ucast16: "unat (ucast (r :: u16) :: u32) = unat r"
proof -
  have "unat r < 2 ^ 16"
    using unsigned_less [of r] by simp
  then have "unat r < 2 ^ 32"
    by simp
  then show ?thesis
    by (simp add: unsigned_ucast_eq take_bit_nat_eq_self)
qed

lemma unat_add_le: "unat (x + y) \<le> unat x + unat y" for x y :: u32
  using of_nat_le_iff uint_add_le by fastforce

lemma aligned_mod:
  fixes x :: u32
  assumes "x AND 7 = 0"
  shows "unat x mod 8 = 0"
proof -
  have "x AND mask 3 = 0"
    using assms by (simp add: mask_eq_exp_minus_1)
  then have "take_bit 3 x = 0"
    by (simp add: take_bit_eq_mask)
  then have "take_bit 3 (unat x) = 0"
    by (metis unsigned_take_bit_eq unsigned_0)
  then show ?thesis
    by (simp add: take_bit_eq_mod)
qed

lemma QuadAlign_le:
  fixes e B :: u32
  assumes "e \<le> B" and "B AND 7 = 0"
  shows "unat (QuadAlign e) \<le> unat B"
proof -
  have "QuadAlign e \<le> e + 7"
    unfolding QuadAlign_def by (rule word_and_le2)
  then have "unat (QuadAlign e) \<le> unat e + 7"
    using unat_add_le [of e 7] by (simp add: word_le_nat_alt)
  moreover have "unat e \<le> unat B"
    using assms(1) by (simp add: word_le_nat_alt)
  moreover have "unat (QuadAlign e) mod 8 = 0" "unat B mod 8 = 0"
    using aligned_mod [OF QuadAlign_low] aligned_mod [OF assms(2)] by simp_all
  ultimately show ?thesis
    by presburger
qed

section \<open>Moving bytes\<close>

lemma memmove_Some_iff:
  "memmove m dst src n = Some m' \<longleftrightarrow>
     0 \<le> dst \<and> 0 \<le> src \<and> 0 \<le> n \<and> nat src + nat n \<le> length m
     \<and> nat dst + nat n \<le> length m
     \<and> m' = take (nat dst) m @ take (nat n) (drop (nat src) m) @ drop (nat dst + nat n) m"
  by (auto simp: memmove_def load_def store_def split: if_splits Option.bind_splits)

lemma memmove_length: "memmove m dst src n = Some m' \<Longrightarrow> length m' = length m"
  by (auto simp: memmove_Some_iff)

lemma memmove_ok:
  "0 \<le> dst \<Longrightarrow> 0 \<le> src \<Longrightarrow> 0 \<le> n \<Longrightarrow> nat src + nat n \<le> length m
     \<Longrightarrow> nat dst + nat n \<le> length m \<Longrightarrow> \<exists>m'. memmove m dst src n = Some m'"
  by (simp add: memmove_Some_iff)

lemma memset_Some_iff:
  "memset m p c n = Some m' \<longleftrightarrow>
     0 \<le> p \<and> 0 \<le> n \<and> nat p + nat n \<le> length m
     \<and> m' = take (nat p) m @ replicate (nat n) c @ drop (nat p + nat n) m"
  by (auto simp: memset_def store_def split: if_splits)

lemma memset_length: "memset m p c n = Some m' \<Longrightarrow> length m' = length m"
  by (auto simp: memset_Some_iff)

lemma rd_bounds:
  "rd8 m p = Some v8 \<Longrightarrow> p + 1 \<le> length m"
  "rd16 m p = Some v16 \<Longrightarrow> p + 2 \<le> length m"
  "rd32 m p = Some v32 \<Longrightarrow> p + 4 \<le> length m"
  "rd64 m p = Some v64 \<Longrightarrow> p + 8 \<le> length m"
  by (auto simp: rd8_def rd16_def rd32_def rd64_def load_Some_iff)

lemma rd_ok:
  "p + 1 \<le> length m \<Longrightarrow> \<exists>v. rd8 m p = Some v"
  "p + 2 \<le> length m \<Longrightarrow> \<exists>v. rd16 m p = Some v"
  "p + 4 \<le> length m \<Longrightarrow> \<exists>v. rd32 m p = Some v"
  "p + 8 \<le> length m \<Longrightarrow> \<exists>v. rd64 m p = Some v"
  by (simp_all add: rd8_def rd16_def rd32_def rd64_def load_def)

lemma wr_ok:
  "p + 1 \<le> length m \<Longrightarrow> \<exists>m'. wr8 m p v8 = Some m'"
  "p + 2 \<le> length m \<Longrightarrow> \<exists>m'. wr16 m p v16 = Some m'"
  "p + 4 \<le> length m \<Longrightarrow> \<exists>m'. wr32 m p v32 = Some m'"
  "p + 8 \<le> length m \<Longrightarrow> \<exists>m'. wr64 m p v64 = Some m'"
  by (simp_all add: wr8_def wr16_def wr32_def wr64_def store_def)

lemma wr_length:
  "wr8 m p v8 = Some m' \<Longrightarrow> length m' = length m"
  "wr16 m p v16 = Some m' \<Longrightarrow> length m' = length m"
  "wr32 m p v32 = Some m' \<Longrightarrow> length m' = length m"
  "wr64 m p v64 = Some m' \<Longrightarrow> length m' = length m"
  by (auto simp: wr8_def wr16_def wr32_def wr64_def dest: store_length)

lemma rd32_wr32_other:
  assumes "wr32 m p v = Some m'" and "q + 4 \<le> p \<or> p + 4 \<le> q"
  shows "rd32 m' q = rd32 m q"
  using assms rd_store_other(3) [of m p "to_le32 v" m' q] by (simp add: wr32_def)

lemma store_nth:
  assumes "store m p bs = Some m'" and "i < length m"
  shows "m' ! i = (if p \<le> i \<and> i < p + length bs then bs ! (i - p) else m ! i)"
proof -
  from assms(1) have p: "p + length bs \<le> length m"
    and m': "m' = take p m @ bs @ drop (p + length bs) m"
    by (auto simp: store_Some_iff)
  show ?thesis
    using p assms(2) unfolding m'
    by (auto simp: nth_append min_def not_less add.commute)
qed

lemma memmove_nth:
  assumes "memmove m dst src n = Some m'" and "i < length m"
  shows "m' ! i = (if nat dst \<le> i \<and> i < nat dst + nat n then m ! (nat src + (i - nat dst))
    else m ! i)"
proof -
  from assms(1) obtain bs where ld: "load m (nat src) (nat n) = Some bs"
    and st: "store m (nat dst) bs = Some m'"
    by (auto simp: memmove_def split: if_splits Option.bind_splits)
  from ld have bs: "bs = take (nat n) (drop (nat src) m)" and "nat src + nat n \<le> length m"
    by (auto simp: load_Some_iff)
  then have len: "length bs = nat n"
    by simp
  show ?thesis
    using store_nth [OF st assms(2)] bs \<open>nat src + nat n \<le> length m\<close>
    by (auto simp: len)
qed

lemma load_agree:
  assumes "length m' = length m" and "\<And>i. p \<le> i \<Longrightarrow> i < p + n \<Longrightarrow> m' ! i = m ! i"
  shows "load m' p n = load m p n"
proof (cases "p + n \<le> length m")
  case True
  have "take n (drop p m') = take n (drop p m)"
    using True assms by (intro nth_equalityI) simp_all
  with True assms(1) show ?thesis
    by (simp add: load_def)
next
  case False
  with assms(1) show ?thesis
    by (simp add: load_def)
qed

lemma rd_agree:
  assumes "length m' = length m"
  shows "(\<And>i. p \<le> i \<Longrightarrow> i < p + 2 \<Longrightarrow> m' ! i = m ! i) \<Longrightarrow> rd16 m' p = rd16 m p"
    and "(\<And>i. p \<le> i \<Longrightarrow> i < p + 4 \<Longrightarrow> m' ! i = m ! i) \<Longrightarrow> rd32 m' p = rd32 m p"
    and "(\<And>i. p \<le> i \<Longrightarrow> i < p + 8 \<Longrightarrow> m' ! i = m ! i) \<Longrightarrow> rd64 m' p = rd64 m p"
  using load_agree [OF assms] by (simp_all add: rd16_def rd32_def rd64_def)

lemma memmove_nat:
  assumes "s + n \<le> length m" and "d + n \<le> length m"
    and "dst = int d" and "src = int s" and "cnt = int n"
  shows "\<exists>m'. memmove m dst src cnt = Some m' \<and> length m' = length m
    \<and> (\<forall>i<length m. m' ! i = (if d \<le> i \<and> i < d + n then m ! (s + (i - d)) else m ! i))"
proof -
  from assms obtain m' where mv: "memmove m dst src cnt = Some m'"
    using memmove_ok [of dst src cnt m] by auto
  with memmove_nth [OF mv] memmove_length [OF mv] assms(3-5) show ?thesis
    by auto
qed

section \<open>Growing an attribute and shrinking it again\<close>

lemma resize_finish_ok:
  assumes len: "a + 0x14 \<le> length m" and a: "0x18 \<le> a"
  shows "\<exists>m'. resize_finish (mi\<lparr>mrec := Some m\<rparr>) a u n r
        = Some (True, mi\<lparr>mrec := Some m', dirty := True\<rparr>)
      \<and> rd32 m' 0x18 = Some u \<and> rd32 m' (a + 4) = Some n \<and> length m' = length m"
proof -
  from len a obtain m1 where m1: "wr32 m 0x18 u = Some m1"
    using wr_ok(3) [of "0x18" m u] by auto
  have l1: "length m1 = length m"
    using m1 by (rule wr_length)
  from len l1 obtain m2 where m2: "wr32 m1 (a + 4) n = Some m2"
    using wr_ok(3) [of "a + 4" m1 n] by auto
  have l2: "length m2 = length m"
    using m2 l1 by (simp add: wr_length)
  from len l2 obtain nr where nr: "rd8 m2 (a + 8) = Some nr"
    using rd_ok(1) [of "a + 8" m2] by auto
  from len l2 obtain m3 where m3: "wr32 m2 (a + 0x10) r = Some m3"
    using wr_ok(3) [of "a + 0x10" m2 r] by auto
  have u2: "rd32 m2 0x18 = Some u"
    using rd32_wr32_other [OF m2, of "0x18"] rd_wr_same(3) [OF m1] a by simp
  have n2: "rd32 m2 (a + 4) = Some n"
    using m2 by (rule rd_wr_same)
  let ?m' = "if nr = 0 then m3 else m2"
  have "resize_finish (mi\<lparr>mrec := Some m\<rparr>) a u n r
      = Some (True, mi\<lparr>mrec := Some ?m', dirty := True\<rparr>)"
    using m1 m2 nr m3
    by (simp add: resize_finish_def set_rec_used_def set_attr_size_def attr_non_res_def
        set_attr_res_data_size_def)
  moreover have "rd32 ?m' 0x18 = Some u"
    using u2 rd32_wr32_other [OF m3, of "0x18"] a by simp
  moreover have "rd32 ?m' (a + 4) = Some n"
    using n2 rd32_wr32_other [OF m3, of "a + 4"] by simp
  moreover have "length ?m' = length m"
    using l2 m3 by (simp add: wr_length)
  ultimately show ?thesis
    by blast
qed

lemma resize_grow_facts:
  assumes run: "mi_resize_attr mi a N = Some (True, mi1)" and pos: "0 < sint N"
    and m: "mrec mi = Some m"
  shows "\<exists>used asize rsize m1 m2.
      rd32 m 0x18 = Some used \<and> rd32 m (a + 4) = Some asize \<and> rd32 m (a + 0x10) = Some rsize
      \<and> 0 \<le> sint (used - PtrOffset a - asize) \<and> PtrOffset a < used
      \<and> memmove m (int a + uint asize + sint (QuadAlign N)) (int a + uint asize)
            (sint (used - PtrOffset a - asize)) = Some m1
      \<and> memset m1 (int a + uint asize) 0 (sint (QuadAlign N)) = Some m2
      \<and> resize_finish (mi\<lparr>mrec := Some m2\<rparr>) a (used + QuadAlign N) (asize + QuadAlign N)
            (rsize + QuadAlign N) = Some (True, mi1)"
proof -
  from pos have "N \<noteq> 0"
    by auto
  with run pos m show ?thesis
    unfolding mi_resize_attr_def rec_used_def attr_size_def attr_res_data_size_def
      rec_total_def Let_def
    by (auto simp: not_le not_less split: if_splits Option.bind_splits)
qed

lemma unat_used_split:
  fixes used asize :: u32
  assumes t: "0 \<le> sint (used - PtrOffset a - asize)"
    and fit: "a + unat asize + nat (sint (used - PtrOffset a - asize)) < 2 ^ 32"
  shows "unat used = a + unat asize + nat (sint (used - PtrOffset a - asize))"
proof -
  let ?t = "used - PtrOffset a - asize"
  have nt: "nat (sint ?t) = unat ?t"
    using sint_nonneg [OF t] by simp
  have "used = ?t + of_nat a + asize"
    by (simp add: PtrOffset_def)
  also have "\<dots> = of_nat (unat ?t + a + unat asize)"
    by simp
  finally have "unat used = unat (of_nat (unat ?t + a + unat asize) :: u32)"
    by (rule arg_cong)
  then have "unat used = (unat ?t + a + unat asize) mod 2 ^ 32"
    by (simp only: unat_of_nat) simp
  with fit nt show ?thesis
    by (simp add: add.commute add.left_commute)
qed

lemma resize_zero:
  assumes "mrec mi = Some m" and "rd32 m 0x18 = Some used" and "rd32 m (a + 4) = Some asize"
    and "rd32 m (a + 0x10) = Some rsize"
    and "0 \<le> sint (used - PtrOffset a - asize)" and "PtrOffset a < used"
  shows "mi_resize_attr mi a 0 = Some (True, mi)"
  using assms
  by (simp add: mi_resize_attr_def Let_def rec_used_def attr_size_def attr_res_data_size_def
      not_le not_less)

lemma resize_shrink_ok:
  assumes m: "mrec mi = Some m" and used: "rd32 m 0x18 = Some used"
    and asize: "rd32 m (a + 4) = Some asize"
    and a14: "a + 0x14 \<le> length m" and a: "0x18 \<le> a"
    and t: "0 \<le> sint (used - PtrOffset a - asize)" and lt: "PtrOffset a < used"
    and b: "b \<noteq> 0" "\<not> 0 < sint b" "QuadAlign (- b) = d"
    and d: "\<not> asize < d" "0 \<le> sint d"
    and bound: "a + unat asize + nat (sint (used - PtrOffset a - asize)) \<le> length m"
  shows "\<exists>mi2. mi_resize_attr mi a b = Some (True, mi2)
      \<and> rec_used mi2 = Some (used - d) \<and> attr_size mi2 a = Some (asize - d)"
proof -
  from a14 obtain rsize where rsize: "rd32 m (a + 0x10) = Some rsize"
    using rd_ok(3) [of "a + 0x10" m] by auto
  from a a14 obtain tot where tot: "rd32 m 0x1C = Some tot"
    using rd_ok(3) [of "0x1C" m] by auto
  have sd: "sint d = uint d"
    using d(2) by (rule sint_nonneg)
  have "uint d \<le> uint asize"
    using d(1) by (simp add: word_less_def not_less)
  then have "\<exists>m4. memmove m (int a + uint asize - sint d) (int a + uint asize)
      (sint (used - PtrOffset a - asize)) = Some m4"
    using bound t by (intro memmove_ok) (simp_all add: sd nat_add_distrib nat_diff_distrib)
  then obtain m4 where mv: "memmove m (int a + uint asize - sint d) (int a + uint asize)
      (sint (used - PtrOffset a - asize)) = Some m4"
    by blast
  have l4: "length m4 = length m"
    using mv by (rule memmove_length)
  from resize_finish_ok [of a m4 mi "used - d" "asize - d" "rsize - d"] a14 l4 a
  obtain m5 where fin: "resize_finish (mi\<lparr>mrec := Some m4\<rparr>) a (used - d) (asize - d)
        (rsize - d) = Some (True, mi\<lparr>mrec := Some m5, dirty := True\<rparr>)"
    and used2: "rd32 m5 0x18 = Some (used - d)"
    and asize2: "rd32 m5 (a + 4) = Some (asize - d)"
    by auto
  have "mi_resize_attr mi a b = Some (True, mi\<lparr>mrec := Some m5, dirty := True\<rparr>)"
    using m used asize rsize tot t lt b d(1) mv fin
    by (simp add: mi_resize_attr_def Let_def rec_used_def attr_size_def
        attr_res_data_size_def rec_total_def not_le not_less)
  moreover have "rec_used (mi\<lparr>mrec := Some m5, dirty := True\<rparr>) = Some (used - d)"
    "attr_size (mi\<lparr>mrec := Some m5, dirty := True\<rparr>) a = Some (asize - d)"
    using used2 asize2 by (simp_all add: rec_used_def attr_size_def)
  ultimately show ?thesis
    by blast
qed

text \<open>
  Claim C3. Let \<open>a\<close> be an attribute behind the record header, in a buffer whose size is
  a 32-bit number, and let \<open>N\<close> be a positive \<^verbatim>\<open>int\<close>. If \<^verbatim>\<open>mi_resize_attr(mi, attr, N)\<close>
  returns true, then \<^verbatim>\<open>mi_resize_attr(mi, attr, -QuadAlign(N))\<close> on the record it leaves
  returns true as well, and afterwards \<^verbatim>\<open>used\<close> and the attribute's \<^verbatim>\<open>size\<close> are what they
  were before the first call.
\<close>

theorem resize_round_trip:
  assumes m: "mrec mi = Some m" and len: "length m < 2 ^ 32"
    and hdr: "unat MFTRECORD_FIXUP_OFFSET_1 \<le> a"
    and pos: "0 < sint N"
    and run: "mi_resize_attr mi a N = Some (True, mi1)"
  shows "\<exists>mi2. mi_resize_attr mi1 a (- QuadAlign N) = Some (True, mi2)
      \<and> rec_used mi2 = rec_used mi \<and> attr_size mi2 a = attr_size mi a"
proof -
  define d where "d = QuadAlign N"
  from hdr have a: "0x18 \<le> a"
    by (simp add: MFTRECORD_FIXUP_OFFSET_1_def)
  from resize_grow_facts [OF run pos m] obtain used asize rsize m1 m2 where
    used: "rd32 m 0x18 = Some used" and asize: "rd32 m (a + 4) = Some asize"
    and rsize: "rd32 m (a + 0x10) = Some rsize"
    and t: "0 \<le> sint (used - PtrOffset a - asize)" and lt: "PtrOffset a < used"
    and mv: "memmove m (int a + uint asize + sint d) (int a + uint asize)
            (sint (used - PtrOffset a - asize)) = Some m1"
    and ms: "memset m1 (int a + uint asize) 0 (sint d) = Some m2"
    and fin: "resize_finish (mi\<lparr>mrec := Some m2\<rparr>) a (used + d) (asize + d) (rsize + d)
        = Some (True, mi1)"
    unfolding d_def by blast
  define tail where "tail = nat (sint (used - PtrOffset a - asize))"
  have dn: "0 \<le> sint d"
    using ms by (simp add: memset_Some_iff)
  then have sd: "sint d = int (unat d)"
    using sint_nonneg [of d] by simp
  have l1: "length m1 = length m" and l2: "length m2 = length m"
    using mv ms by (simp_all add: memmove_length memset_length)
  have bound: "a + unat asize + unat d + tail \<le> length m"
    using mv t by (simp add: memmove_Some_iff sd tail_def nat_add_distrib)
  have a14: "a + 0x14 \<le> length m"
    using rd_bounds(3) [OF rsize] by simp
  from resize_finish_ok [of a m2 mi "used + d" "asize + d" "rsize + d"] a14 l2 a fin
  obtain m3 where mi1: "mi1 = mi\<lparr>mrec := Some m3, dirty := True\<rparr>"
    and used1: "rd32 m3 0x18 = Some (used + d)" and asize1: "rd32 m3 (a + 4) = Some (asize + d)"
    and l3: "length m3 = length m"
    by auto
  have m3: "mrec mi1 = Some m3"
    by (simp add: mi1)
  from a14 l3 obtain r1 where rsize1: "rd32 m3 (a + 0x10) = Some r1"
    using rd_ok(3) [of "a + 0x10" m3] by auto
  have tail1: "used + d - PtrOffset a - (asize + d) = used - PtrOffset a - asize"
    by simp
  have usplit: "unat used = a + unat asize + tail"
    unfolding tail_def using bound len by (intro unat_used_split [OF t]) (simp add: tail_def)
  have ud: "unat (used + d) = unat used + unat d"
    using usplit bound len unat_add_lem [of used d] by simp
  have ad: "unat (asize + d) = unat asize + unat d"
    using bound len unat_add_lem [of asize d] by simp
  have lt1: "PtrOffset a < used + d"
    using lt ud by (simp add: word_le_nat_alt word_less_nat_alt)
  have t1: "0 \<le> sint (used + d - PtrOffset a - (asize + d))"
    using t by (simp only: tail1)
  have bound1: "a + unat (asize + d) + nat (sint (used + d - PtrOffset a - (asize + d)))
      \<le> length m3"
    using bound by (simp only: tail1 ad l3) (simp add: tail_def)
  have orig: "rec_used mi = Some used" "attr_size mi a = Some asize"
    using used asize m by (simp_all add: rec_used_def attr_size_def)
  show ?thesis
  proof (cases "d = 0")
    case True
    from resize_zero [OF m3 used1 asize1 rsize1 t1 lt1]
    have "mi_resize_attr mi1 a (- QuadAlign N) = Some (True, mi1)"
      using True by (simp add: d_def)
    moreover have "rec_used mi1 = Some used" "attr_size mi1 a = Some asize"
      using used1 asize1 True by (simp_all add: mi1 rec_used_def attr_size_def)
    ultimately show ?thesis
      using orig by simp
  next
    case False
    from sint_neg_pos [OF False dn] have neg: "- d \<noteq> 0" "\<not> 0 < sint (- d)"
      by simp_all
    have qd: "QuadAlign (- (- d)) = d"
      by (simp add: d_def QuadAlign_idem)
    have fits: "\<not> asize + d < d"
      using ad by (simp add: word_less_nat_alt)
    from resize_shrink_ok [OF m3 used1 asize1 _ a t1 lt1 neg qd fits dn bound1] a14 l3
    obtain mi2 where "mi_resize_attr mi1 a (- d) = Some (True, mi2)"
      and "rec_used mi2 = Some (used + d - d)" and "attr_size mi2 a = Some (asize + d - d)"
      by auto
    then show ?thesis
      using orig by (simp add: d_def)
  qed
qed

text \<open>Growing the attribute of the one-attribute record by 5 bytes takes \<^verbatim>\<open>used\<close> from
  \<^verbatim>\<open>0x50\<close> to \<^verbatim>\<open>0x58\<close> and the size from \<^verbatim>\<open>0x18\<close> to \<^verbatim>\<open>0x20\<close>; shrinking by 8 takes them
  back.\<close>

theorem resize_round_trip_witness:
  "0 < sint (5 :: 32 word) \<and> rec_used (ex_one 0x80) = Some 0x50
   \<and> attr_size (ex_one 0x80) 0x30 = Some 0x18
   \<and> (\<exists>mi1 mi2. mi_resize_attr (ex_one 0x80) 0x30 5 = Some (True, mi1)
         \<and> rec_used mi1 = Some 0x58 \<and> attr_size mi1 0x30 = Some 0x20
         \<and> mi_resize_attr mi1 0x30 (- QuadAlign 5) = Some (True, mi2)
         \<and> rec_used mi2 = Some 0x50 \<and> attr_size mi2 0x30 = Some 0x18)"
proof -
  have m: "mrec (ex_one 0x80) = Some (ex_bytes 0x80)"
    by (simp add: ex_one_def ex_mi_def)
  have "length (ex_bytes 0x80) = 0x80"
    by (simp add: ex_bytes_def ex_rec_def put_def ex_attr_def ex_end_def)
  then have len: "length (ex_bytes 0x80) < 2 ^ 32"
    by simp
  have hdr: "unat MFTRECORD_FIXUP_OFFSET_1 \<le> 0x30"
    by (simp add: MFTRECORD_FIXUP_OFFSET_1_def)
  have pos: "0 < sint (5 :: 32 word)"
    by simp
  have before: "rec_used (ex_one 0x80) = Some 0x50" "attr_size (ex_one 0x80) 0x30 = Some 0x18"
    by code_simp+
  have grown: "map_option fst (mi_resize_attr (ex_one 0x80) 0x30 5) = Some True"
    "map_option (rec_used \<circ> snd) (mi_resize_attr (ex_one 0x80) 0x30 5) = Some (Some 0x58)"
    "map_option ((\<lambda>mi. attr_size mi 0x30) \<circ> snd) (mi_resize_attr (ex_one 0x80) 0x30 5)
      = Some (Some 0x20)"
    by code_simp+
  then obtain mi1 where run: "mi_resize_attr (ex_one 0x80) 0x30 5 = Some (True, mi1)"
    and mid: "rec_used mi1 = Some 0x58" "attr_size mi1 0x30 = Some 0x20"
    by (cases "mi_resize_attr (ex_one 0x80) 0x30 5") auto
  from resize_round_trip [OF m len hdr pos run] before
  obtain mi2 where "mi_resize_attr mi1 0x30 (- QuadAlign 5) = Some (True, mi2)"
    "rec_used mi2 = Some 0x50" "attr_size mi2 0x30 = Some 0x18"
    by auto
  with pos before run mid show ?thesis
    by blast
qed

section \<open>Packing runs\<close>

lemma pack_layout:
  fixes used asize rs :: u32 and run_off :: u16
  assumes inrec: "a + unat asize \<le> unat used" "unat used \<le> unat rs"
    and ro: "unat run_off \<le> unat asize"
  shows "unat (used - PtrOffset a - asize) = unat used - a - unat asize"
    and "unat (rs - used) = unat rs - unat used"
    and "unat (asize - ucast run_off) = unat asize - unat run_off"
    and "unat (asize - ucast run_off + (rs - used))
      \<le> unat asize - unat run_off + (unat rs - unat used)"
proof -
  have "unat used < 2 ^ 32"
    using unsigned_less [of used] by simp
  with inrec(1) have a: "unat (PtrOffset a) = a"
    by (simp add: PtrOffset_def unat_of_nat)
  then have "PtrOffset a \<le> used"
    using inrec(1) by (simp add: word_le_nat_alt)
  then have 1: "unat (used - PtrOffset a) = unat used - a"
    using a by (simp add: unat_sub)
  then have "asize \<le> used - PtrOffset a"
    using inrec(1) by (simp add: word_le_nat_alt)
  then show "unat (used - PtrOffset a - asize) = unat used - a - unat asize"
    using 1 by (simp add: unat_sub)
  show 2: "unat (rs - used) = unat rs - unat used"
    using inrec(2) by (simp add: unat_sub word_le_nat_alt)
  have r: "unat (ucast run_off :: u32) = unat run_off"
    by (rule unat_ucast16)
  then have "(ucast run_off :: u32) \<le> asize"
    using ro by (simp add: word_le_nat_alt)
  then show 3: "unat (asize - ucast run_off) = unat asize - unat run_off"
    using r by (simp add: unat_sub)
  show "unat (asize - ucast run_off + (rs - used))
      \<le> unat asize - unat run_off + (unat rs - unat used)"
    using unat_add_le [of "asize - ucast run_off" "rs - used"] 2 3
    by simp
qed

lemma ex_nres_fields:
  "mrec ex_nres = Some (ex_rec 0xA0 0x80 0xA0 1 (ex_nres_attr @ ex_end))"
  "length (ex_rec 0xA0 0x80 0xA0 1 (ex_nres_attr @ ex_end)) = unat (record_size ex_sbi2)"
  "attr_nres_svcn ex_nres 0x30 = Some 0"
  "rec_used ex_nres = Some 0x80"
  "attr_size ex_nres 0x30 = Some 0x48"
  "attr_nres_run_off ex_nres 0x30 = Some 0x40"
  "attr_nres_evcn ex_nres 0x30 = Some 0"
  "unat MFTRECORD_FIXUP_OFFSET_1 \<le> 0x30"
  "0x30 + unat (0x48 :: u32) \<le> unat (0x80 :: u32)"
  "unat (0x80 :: u32) \<le> unat (record_size ex_sbi2)"
  "0x20 \<le> unat (0x40 :: u16)"
  "unat (0x40 :: u16) \<le> unat (0x48 :: u32)"
proof -
  show "mrec ex_nres = Some (ex_rec 0xA0 0x80 0xA0 1 (ex_nres_attr @ ex_end))"
    by (simp add: ex_nres_def ex_mi_def)
  have "length (ex_rec 0xA0 0x80 0xA0 1 (ex_nres_attr @ ex_end)) = 0xA0"
    by (simp add: ex_rec_def put_def ex_nres_attr_def ex_end_def)
  then show "length (ex_rec 0xA0 0x80 0xA0 1 (ex_nres_attr @ ex_end))
      = unat (record_size ex_sbi2)"
    by (simp add: ex_sbi2_def)
  show "attr_nres_svcn ex_nres 0x30 = Some 0" "rec_used ex_nres = Some 0x80"
    "attr_size ex_nres 0x30 = Some 0x48" "attr_nres_run_off ex_nres 0x30 = Some 0x40"
    "attr_nres_evcn ex_nres 0x30 = Some 0"
    by code_simp+
  show "unat MFTRECORD_FIXUP_OFFSET_1 \<le> 0x30" "0x30 + unat (0x48 :: u32) \<le> unat (0x80 :: u32)"
    "unat (0x80 :: u32) \<le> unat (record_size ex_sbi2)" "0x20 \<le> unat (0x40 :: u16)"
    "unat (0x40 :: u16) \<le> unat (0x48 :: u32)"
    by (simp_all add: MFTRECORD_FIXUP_OFFSET_1_def ex_sbi2_def)
qed

text \<open>
  Claim C5. Take a non-resident attribute that lies within \<^verbatim>\<open>used\<close>, in a record whose
  buffer has \<^verbatim>\<open>record_size\<close> bytes and whose \<^verbatim>\<open>used\<close> is at most that, with the run list
  starting behind the fixed fields (\<^verbatim>\<open>run_off\<close> from \<^verbatim>\<open>0x20\<close> on) and within the attribute;
  and let the serializer fail (a negative result) having written no more than the buffer
  size it was given. Then \<^verbatim>\<open>mi_pack_runs\<close> returns the serializer's result; every byte of
  the used part of the record outside the old run list is as it was before the call, so
  the bytes behind the attribute are back in their place; \<^verbatim>\<open>used\<close>, the attribute's
  \<^verbatim>\<open>size\<close> and its \<^verbatim>\<open>evcn\<close> are unchanged; and the dirty flag is as it was.
\<close>

theorem pack_runs_failure:
  assumes m: "mrec mi = Some m" and len: "length m = unat (record_size sbi)"
    and svcn: "attr_nres_svcn mi a = Some svcn" and used: "rec_used mi = Some used"
    and asize: "attr_size mi a = Some asize"
    and roff: "attr_nres_run_off mi a = Some run_off"
    and inrec: "a + unat asize \<le> unat used" "unat used \<le> unat (record_size sbi)"
    and ro: "0x20 \<le> unat run_off" "unat run_off \<le> unat asize"
    and rp: "run_pack run (ucast svcn) cnt (asize - ucast run_off + (record_size sbi - used))
      = (err, out, plen)"
    and contract: "length out \<le> unat (asize - ucast run_off + (record_size sbi - used))"
    and fail: "sint err < 0"
  shows "\<exists>m'. mi_pack_runs run_pack sbi mi a run cnt = Some (err, mi\<lparr>mrec := Some m'\<rparr>)
    \<and> length m' = length m
    \<and> (\<forall>i<unat used. i < a + unat run_off \<or> a + unat asize \<le> i \<longrightarrow> m' ! i = m ! i)
    \<and> rec_used (mi\<lparr>mrec := Some m'\<rparr>) = Some used
    \<and> attr_size (mi\<lparr>mrec := Some m'\<rparr>) a = Some asize
    \<and> attr_nres_evcn (mi\<lparr>mrec := Some m'\<rparr>) a = attr_nres_evcn mi a
    \<and> dirty (mi\<lparr>mrec := Some m'\<rparr>) = dirty mi"
proof -
  define nx where "nx = a + unat asize"
  define tl where "tl = unat used - a - unat asize"
  define ds where "ds = unat (record_size sbi) - unat used"
  note lay = pack_layout [OF inrec ro(2)]
  have e_nx: "int a + uint asize = int nx"
    by (simp add: nx_def)
  have e_ds: "uint (record_size sbi - used) = int ds"
    using arg_cong [OF lay(2), of int] by (simp add: ds_def)
  have e_tl: "uint (used - PtrOffset a - asize) = int tl"
    using arg_cong [OF lay(1), of int] by (simp add: tl_def)
  have nxtl: "nx + tl = unat used" and top: "nx + ds + tl = length m"
    using inrec len by (simp_all add: nx_def tl_def ds_def)
  from memmove_nat [of nx tl m "nx + ds" "int a + uint asize + uint (record_size sbi - used)"
      "int a + uint asize" "uint (used - PtrOffset a - asize)"]
  obtain m1 where mv1: "memmove m (int a + uint asize + uint (record_size sbi - used))
      (int a + uint asize) (uint (used - PtrOffset a - asize)) = Some m1"
    and l1: "length m1 = length m"
    and n1: "\<forall>i<length m. m1 ! i
      = (if nx + ds \<le> i \<and> i < nx + ds + tl then m ! (nx + (i - (nx + ds))) else m ! i)"
    using nxtl top inrec(2) len by (auto simp: e_nx e_ds e_tl)
  have out_end: "a + unat run_off + length out \<le> nx + ds"
    using contract lay(4) ro(2) by (simp add: nx_def ds_def)
  then obtain m2 where st: "store m1 (a + unat run_off) out = Some m2"
    using top l1 by (auto simp: store_def)
  have l2: "length m2 = length m"
    using st l1 by (simp add: store_length)
  from memmove_nat [of "nx + ds" tl m2 nx "int a + uint asize"
      "int a + uint asize + uint (record_size sbi - used)" "uint (used - PtrOffset a - asize)"]
  obtain m3 where mv3: "memmove m2 (int a + uint asize)
      (int a + uint asize + uint (record_size sbi - used))
      (uint (used - PtrOffset a - asize)) = Some m3"
    and l3: "length m3 = length m"
    and n3: "\<forall>i<length m. m3 ! i
      = (if nx \<le> i \<and> i < nx + tl then m2 ! (nx + ds + (i - nx)) else m2 ! i)"
    using nxtl top inrec(2) len l2 by (auto simp: e_nx e_ds e_tl)
  have run: "mi_pack_runs run_pack sbi mi a run cnt = Some (err, mi\<lparr>mrec := Some m3\<rparr>)"
    using m svcn used asize roff rp contract fail mv1 st mv3
    by (simp add: mi_pack_runs_def Let_def not_less)
  have same: "m3 ! i = m ! i" if "i < unat used" and "i < a + unat run_off \<or> nx \<le> i" for i
  proof -
    have i: "i < length m"
      using that(1) inrec(2) len by simp
    show ?thesis
    proof (cases "nx \<le> i")
      case True
      let ?j = "nx + ds + (i - nx)"
      have j: "?j < length m" "nx + ds \<le> ?j" "?j < nx + ds + tl"
        using True that(1) nxtl top by simp_all
      have "m3 ! i = m2 ! ?j"
        using n3 i True that(1) nxtl by simp
      also have "\<dots> = m1 ! ?j"
        using store_nth [OF st, of ?j] j l1 out_end by simp
      also have "\<dots> = m ! i"
        using n1 j True by simp
      finally show ?thesis .
    next
      case False
      with that(2) have lo: "i < a + unat run_off"
        by simp
      have "m3 ! i = m2 ! i"
        using n3 i False by simp
      also have "\<dots> = m1 ! i"
        using store_nth [OF st, of i] i l1 lo by simp
      also have "\<dots> = m ! i"
        using n1 i False by simp
      finally show ?thesis .
    qed
  qed
  have low: "m3 ! i = m ! i" if "i < a + 0x20" for i
    using same [of i] that ro inrec(1) by simp
  have "rd32 m3 0x18 = rd32 m 0x18"
    using ro by (intro rd_agree(2) [OF l3] low) simp
  moreover have "rd32 m3 (a + 4) = rd32 m (a + 4)"
    by (intro rd_agree(2) [OF l3] low) simp
  moreover have "rd64 m3 (a + 0x18) = rd64 m (a + 0x18)"
    by (intro rd_agree(3) [OF l3] low) simp
  ultimately have "rec_used (mi\<lparr>mrec := Some m3\<rparr>) = Some used"
    "attr_size (mi\<lparr>mrec := Some m3\<rparr>) a = Some asize"
    "attr_nres_evcn (mi\<lparr>mrec := Some m3\<rparr>) a = attr_nres_evcn mi a"
    using m used asize by (simp_all add: rec_used_def attr_size_def attr_nres_evcn_def)
  with run l3 same show ?thesis
    unfolding nx_def by (intro exI [of _ m3]) simp
qed

text \<open>The serializer that fails with \<^verbatim>\<open>-EINVAL\<close>, on the record with the non-resident
  attribute.\<close>

theorem pack_runs_failure_witness:
  "sint (- EINVAL) < 0
   \<and> rec_used ex_nres = Some 0x80 \<and> attr_size ex_nres 0x30 = Some 0x48
   \<and> attr_nres_evcn ex_nres 0x30 = Some 0 \<and> dirty ex_nres = False
   \<and> map_option fst (mi_pack_runs ex_pack_fail ex_sbi2 ex_nres 0x30 () 1000) = Some (- EINVAL)
   \<and> map_option (rec_used \<circ> snd) (mi_pack_runs ex_pack_fail ex_sbi2 ex_nres 0x30 () 1000)
       = Some (Some 0x80)
   \<and> map_option ((\<lambda>mi. attr_size mi 0x30) \<circ> snd)
         (mi_pack_runs ex_pack_fail ex_sbi2 ex_nres 0x30 () 1000) = Some (Some 0x48)
   \<and> map_option ((\<lambda>mi. attr_nres_evcn mi 0x30) \<circ> snd)
         (mi_pack_runs ex_pack_fail ex_sbi2 ex_nres 0x30 () 1000) = Some (Some 0)
   \<and> map_option (dirty \<circ> snd) (mi_pack_runs ex_pack_fail ex_sbi2 ex_nres 0x30 () 1000)
       = Some False"
proof -
  have rp: "ex_pack_fail () (ucast (0 :: u64)) 1000 (0x48 - ucast (0x40 :: u16)
      + (record_size ex_sbi2 - 0x80)) = (- EINVAL, replicate 3 0xCD, 0)"
    by (simp add: ex_pack_fail_def)
  have contract: "length (replicate 3 (0xCD :: u8))
      \<le> unat (0x48 - ucast (0x40 :: u16) + (record_size ex_sbi2 - 0x80))"
    by (simp add: ex_sbi2_def)
  have fail: "sint (- EINVAL) < 0"
    by (simp add: EINVAL_def)
  have clean: "dirty ex_nres = False"
    by (simp add: ex_nres_def ex_mi_def)
  from pack_runs_failure [where run_pack = ex_pack_fail and run = "()" and cnt = 1000,
      OF ex_nres_fields(1-6) ex_nres_fields(9-12) rp contract fail]
  obtain m' where
    "mi_pack_runs ex_pack_fail ex_sbi2 ex_nres 0x30 () 1000
      = Some (- EINVAL, ex_nres\<lparr>mrec := Some m'\<rparr>)"
    "rec_used (ex_nres\<lparr>mrec := Some m'\<rparr>) = Some 0x80"
    "attr_size (ex_nres\<lparr>mrec := Some m'\<rparr>) 0x30 = Some 0x48"
    "attr_nres_evcn (ex_nres\<lparr>mrec := Some m'\<rparr>) 0x30 = attr_nres_evcn ex_nres 0x30"
    by blast
  with fail clean ex_nres_fields(4,5,7) show ?thesis
    by simp
qed

lemma pack_fields_written:
  assumes len: "a + 0x22 \<le> length m" and a: "0x18 \<le> a"
  shows "\<exists>m'. (do {
        mi \<leftarrow> set_attr_size (mi\<lparr>mrec := Some m\<rparr>) a sz;
        mi \<leftarrow> set_attr_nres_evcn mi a ev;
        mi \<leftarrow> set_rec_used mi u;
        Some (0 :: 32 word, mi\<lparr>dirty := True\<rparr>) })
      = Some (0, mi\<lparr>mrec := Some m', dirty := True\<rparr>)
    \<and> rd32 m' (a + 4) = Some sz \<and> rd64 m' (a + 0x18) = Some ev \<and> rd32 m' 0x18 = Some u"
proof -
  from len obtain m1 where m1: "wr32 m (a + 4) sz = Some m1"
    using wr_ok(3) [of "a + 4" m sz] by auto
  have l1: "length m1 = length m"
    using m1 by (rule wr_length)
  from len l1 obtain m2 where m2: "wr64 m1 (a + 0x18) ev = Some m2"
    using wr_ok(4) [of "a + 0x18" m1 ev] by auto
  have l2: "length m2 = length m"
    using m2 l1 by (simp add: wr_length)
  from len a l2 obtain m3 where m3: "wr32 m2 0x18 u = Some m3"
    using wr_ok(3) [of "0x18" m2 u] by auto
  have s2: "rd32 m2 (a + 4) = Some sz"
    using rd_store_other(3) [of m1 "a + 0x18" "to_le64 ev" m2 "a + 4"] m2 rd_wr_same(3) [OF m1]
    by (simp add: wr64_def)
  have "rd32 m3 (a + 4) = Some sz"
    using rd32_wr32_other [OF m3, of "a + 4"] s2 a by simp
  moreover have "rd64 m3 (a + 0x18) = Some ev"
    using rd_store_other(4) [of m2 "0x18" "to_le32 u" m3 "a + 0x18"] m3 rd_wr_same(4) [OF m2] a
    by (simp add: wr32_def)
  moreover have "rd32 m3 0x18 = Some u"
    using m3 by (rule rd_wr_same)
  ultimately show ?thesis
    using m1 m2 m3
    by (intro exI [of _ m3]) (simp add: set_attr_size_def set_attr_nres_evcn_def set_rec_used_def)
qed

text \<open>The value that \<^verbatim>\<open>mi_pack_runs\<close> stores in \<^verbatim>\<open>evcn\<close> is computed in \<^verbatim>\<open>CLST\<close>; it is the
  64-bit \<^verbatim>\<open>svcn + plen - 1\<close> when nothing is cut off.\<close>

lemma evcn_clst:
  fixes svcn :: u64 and plen :: CLST
  assumes "unat svcn < 2 ^ 32" and "1 \<le> unat svcn + unat plen"
    and "unat svcn + unat plen \<le> 2 ^ 32"
  shows "(ucast (ucast svcn + plen - 1 :: CLST) :: u64) = svcn + ucast plen - 1"
proof -
  define n where "n = unat svcn + unat plen - 1"
  have n: "n < 2 ^ 32"
    using assms by (simp add: n_def)
  have lo: "(ucast svcn :: CLST) = of_nat (unat svcn)"
    by simp
  have "(ucast svcn :: CLST) + plen - 1 = of_nat (unat svcn) + of_nat (unat plen) - of_nat 1"
    unfolding lo by simp
  also have "\<dots> = of_nat n"
    using assms(2) unfolding n_def by (simp add: of_nat_diff)
  finally have l: "(ucast svcn :: CLST) + plen - 1 = of_nat n" .
  have "unat (of_nat n :: CLST) = n"
    using n by (simp add: unat_of_nat)
  moreover have "(ucast (of_nat n :: CLST) :: u64) = of_nat (unat (of_nat n :: CLST))"
    by simp
  ultimately have l2: "(ucast (of_nat n :: CLST) :: u64) = of_nat n"
    by (simp only:)
  have "svcn + ucast plen - 1 = (of_nat (unat svcn) + of_nat (unat plen) - of_nat 1 :: u64)"
    by simp
  also have "\<dots> = of_nat n"
    using assms(2) unfolding n_def by (simp add: of_nat_diff)
  finally show ?thesis
    using l l2 by simp
qed

text \<open>The space that the serializer gets is the old run list and the free end of the
  record. When the byte count it returns, rounded up to a multiple of 8, is greater, the
  last \<^verbatim>\<open>memmove\<close> has the end of its destination behind the record buffer: the call has no
  defined result.\<close>

lemma memmove_None: "length m < nat dst + nat n \<Longrightarrow> memmove m dst src n = None"
  by (cases "memmove m dst src n") (auto simp: memmove_Some_iff)

lemma pack_space:
  fixes used asize rs :: u32 and run_off :: u16
  assumes inrec: "a + unat asize \<le> unat used" "unat used \<le> unat rs"
    and ro: "unat run_off \<le> unat asize"
  shows "unat (asize - ucast run_off + (rs - used))
      = unat asize - unat run_off + (unat rs - unat used)"
proof -
  note lay = pack_layout [OF inrec ro]
  have "unat asize - unat run_off + (unat rs - unat used) \<le> unat rs"
    using inrec by simp
  moreover have "unat rs < 2 ^ 32"
    using unsigned_less [of rs] by simp
  ultimately show ?thesis
    using unat_add_lem [of "asize - ucast run_off" "rs - used"] lay(2,3) by simp
qed


lemma pack_runs_overrun:
  assumes m: "mrec mi = Some m" and len: "length m = unat (record_size sbi)"
    and svcn: "attr_nres_svcn mi a = Some svcn" and used: "rec_used mi = Some used"
    and asize: "attr_size mi a = Some asize"
    and roff: "attr_nres_run_off mi a = Some run_off"
    and inrec: "a + unat asize \<le> unat used" "unat used \<le> unat (record_size sbi)"
    and ro: "unat run_off \<le> unat asize"
    and rp: "run_pack run (ucast svcn) cnt (asize - ucast run_off + (record_size sbi - used))
      = (err, out, plen)"
    and ok: "0 \<le> sint err"
    and over: "asize - ucast run_off + (record_size sbi - used) < QuadAlign err"
  shows "mi_pack_runs run_pack sbi mi a run cnt = None"
proof -
  define tl where "tl = unat used - a - unat asize"
  define nrs where "nrs = QuadAlign err"
  define rsz where "rsz = asize - ucast run_off"
  note lay = pack_layout [OF inrec ro]
  have sp: "unat asize - unat run_off + (unat (record_size sbi) - unat used) < unat nrs"
    using over pack_space [OF inrec ro] by (simp add: word_less_nat_alt nrs_def)
  have e_tl: "uint (used - PtrOffset a - asize) = int tl"
    using arg_cong [OF lay(1), of int] by (simp add: tl_def)
  have rs: "unat rsz = unat asize - unat run_off"
    using lay(3) by (simp add: rsz_def)
  have e_dst: "int a + uint asize + uint nrs - uint rsz = int (a + unat run_off + unat nrs)"
    using ro rs arg_cong [OF rs, of int] by (simp add: of_nat_diff)
  have "length m < a + unat run_off + unat nrs + tl"
    using sp inrec ro len by (simp add: tl_def)
  then have none: "\<And>m'. length m' = length m \<Longrightarrow>
      memmove m' (int a + uint asize + uint nrs - uint rsz)
        (int a + uint asize + uint (record_size sbi - used))
        (uint (used - PtrOffset a - asize)) = None"
    unfolding e_dst e_tl by (intro memmove_None) (simp only: nat_int)
  show ?thesis
  proof (cases "memmove m (int a + uint asize + uint (record_size sbi - used))
      (int a + uint asize) (uint (used - PtrOffset a - asize))")
    case None
    then show ?thesis
      using m svcn used asize roff by (simp add: mi_pack_runs_def Let_def)
  next
    case (Some m1)
    then have l1: "length m1 = length m"
      by (rule memmove_length)
    show ?thesis
    proof (cases "unat (asize - ucast run_off + (record_size sbi - used)) < length out")
      case True
      then show ?thesis
        using m svcn used asize roff rp Some by (simp add: mi_pack_runs_def Let_def)
    next
      case False
      show ?thesis
      proof (cases "store m1 (a + unat run_off) out")
        case None
        then show ?thesis
          using m svcn used asize roff rp Some False by (simp add: mi_pack_runs_def Let_def)
      next
        case st: (Some m2)
        have "length m2 = length m"
          using st l1 by (simp add: store_length)
        from none [OF this] show ?thesis
          using m svcn used asize roff rp Some False st ok
          by (simp add: mi_pack_runs_def Let_def not_less nrs_def rsz_def)
      qed
    qed
  qed
qed

text \<open>
  Claim C4, as amended. Take a non-resident attribute behind the record header that lies
  within \<^verbatim>\<open>used\<close>, in a record whose buffer has \<^verbatim>\<open>record_size\<close> bytes and whose \<^verbatim>\<open>used\<close> is
  at most that, with the run list starting within the attribute; and let the serializer
  succeed, having written no more than the buffer size it was given, with the byte count it
  returns, rounded up to a multiple of 8, at most that size. Then \<^verbatim>\<open>mi_pack_runs\<close> returns
  0. The field \<^verbatim>\<open>evcn\<close> is \<^verbatim>\<open>svcn + plen - 1\<close> as computed in the 32-bit cluster type \<^verbatim>\<open>CLST\<close>:
  the low 32 bits of the field \<^verbatim>\<open>svcn\<close>, plus \<^verbatim>\<open>plen\<close>, minus 1, modulo \<^verbatim>\<open>2^32\<close>, extended
  with zeros to 64 bits; \<^verbatim>\<open>plen\<close> is the number of clusters the serializer has packed,
  whatever number was asked for. This is the 64-bit number \<^verbatim>\<open>svcn + plen - 1\<close> whenever \<^verbatim>\<open>svcn\<close>
  is below \<^verbatim>\<open>2^32\<close> and \<^verbatim>\<open>svcn + plen\<close> is between 1 and \<^verbatim>\<open>2^32\<close>. The attribute's \<^verbatim>\<open>size\<close> and
  the record's \<^verbatim>\<open>used\<close> have both changed by the quad-aligned new run-list size minus the
  old run-list size; the record is dirty; and \<^verbatim>\<open>used\<close> is at most \<^verbatim>\<open>record_size\<close>.
\<close>

theorem pack_runs_success:
  assumes m: "mrec mi = Some m" and len: "length m = unat (record_size sbi)"
    and hdr: "unat MFTRECORD_FIXUP_OFFSET_1 \<le> a"
    and svcn: "attr_nres_svcn mi a = Some svcn" and used: "rec_used mi = Some used"
    and asize: "attr_size mi a = Some asize"
    and roff: "attr_nres_run_off mi a = Some run_off"
    and inrec: "a + unat asize \<le> unat used" "unat used \<le> unat (record_size sbi)"
    and ro: "unat run_off \<le> unat asize"
    and rp: "run_pack run (ucast svcn) cnt (asize - ucast run_off + (record_size sbi - used))
      = (err, out, plen)"
    and contract: "length out \<le> unat (asize - ucast run_off + (record_size sbi - used))"
    and ok: "0 \<le> sint err"
    and fits: "QuadAlign err \<le> asize - ucast run_off + (record_size sbi - used)"
  shows "\<exists>mi' used'. mi_pack_runs run_pack sbi mi a run cnt = Some (0, mi')
    \<and> attr_nres_evcn mi' a = Some (ucast (ucast svcn + plen - 1 :: CLST))
    \<and> (unat svcn < 2 ^ 32 \<and> 1 \<le> unat svcn + unat plen \<and> unat svcn + unat plen \<le> 2 ^ 32
        \<longrightarrow> attr_nres_evcn mi' a = Some (svcn + ucast plen - 1))
    \<and> attr_size mi' a = Some (asize + QuadAlign err - (asize - ucast run_off))
    \<and> rec_used mi' = Some used' \<and> used' = used + QuadAlign err - (asize - ucast run_off)
    \<and> int (unat used') - int (unat used)
        = int (unat (QuadAlign err)) - int (unat (asize - ucast run_off))
    \<and> dirty mi' \<and> used' \<le> record_size sbi"
proof -
  define nx where "nx = a + unat asize"
  define tl where "tl = unat used - a - unat asize"
  define ds where "ds = unat (record_size sbi) - unat used"
  define nrs where "nrs = QuadAlign err"
  define rsz where "rsz = asize - ucast run_off"
  note lay = pack_layout [OF inrec ro]
  have fits': "unat (QuadAlign err)
      \<le> unat (asize - ucast run_off) + unat (record_size sbi - used)"
    using fits unat_add_le [of "asize - ucast run_off" "record_size sbi - used"]
    by (simp add: word_le_nat_alt)
  from hdr have a: "0x18 \<le> a"
    by (simp add: MFTRECORD_FIXUP_OFFSET_1_def)
  have e_nx: "int a + uint asize = int nx"
    by (simp add: nx_def)
  have e_ds: "uint (record_size sbi - used) = int ds"
    using arg_cong [OF lay(2), of int] by (simp add: ds_def)
  have e_tl: "uint (used - PtrOffset a - asize) = int tl"
    using arg_cong [OF lay(1), of int] by (simp add: tl_def)
  have rs: "unat rsz = unat asize - unat run_off"
    using lay(3) by (simp add: rsz_def)
  have nxtl: "nx + tl = unat used" and top: "nx + ds + tl = length m"
    using inrec len by (simp_all add: nx_def tl_def ds_def)
  from memmove_nat [of nx tl m "nx + ds" "int a + uint asize + uint (record_size sbi - used)"
      "int a + uint asize" "uint (used - PtrOffset a - asize)"]
  obtain m1 where mv1: "memmove m (int a + uint asize + uint (record_size sbi - used))
      (int a + uint asize) (uint (used - PtrOffset a - asize)) = Some m1"
    and l1: "length m1 = length m"
    using nxtl top inrec(2) len by (auto simp: e_nx e_ds e_tl)
  have out_end: "a + unat run_off + length out \<le> nx + ds"
    using contract lay(4) ro by (simp add: nx_def ds_def)
  then obtain m2 where st: "store m1 (a + unat run_off) out = Some m2"
    using top l1 by (auto simp: store_def)
  have l2: "length m2 = length m"
    using st l1 by (simp add: store_length)
  have cap: "unat nrs \<le> unat rsz + ds"
    using fits' lay(2) by (simp add: nrs_def rsz_def ds_def)
  have e_dst: "int a + uint asize + uint nrs - uint rsz = int (a + unat run_off + unat nrs)"
    using ro rs arg_cong [OF rs, of int] by (simp add: of_nat_diff)
  have dstfit: "a + unat run_off + unat nrs + tl \<le> length m"
    using top cap rs ro by (simp add: nx_def)
  from memmove_nat [of "nx + ds" tl m2 "a + unat run_off + unat nrs"
      "int a + uint asize + uint nrs - uint rsz"
      "int a + uint asize + uint (record_size sbi - used)" "uint (used - PtrOffset a - asize)"]
  obtain m3 where mv3: "memmove m2 (int a + uint asize + uint nrs - uint rsz)
      (int a + uint asize + uint (record_size sbi - used))
      (uint (used - PtrOffset a - asize)) = Some m3"
    and l3: "length m3 = length m"
    using top l2 dstfit e_dst by (auto simp: e_nx e_ds e_tl)
  have a22: "a + 0x22 \<le> length m3"
    using roff m l3 rd_bounds(2) [of m "a + 0x20" run_off]
    by (simp add: attr_nres_run_off_def)
  from pack_fields_written [OF a22 a, of mi "asize + nrs - rsz"
      "ucast (ucast svcn + plen - 1 :: CLST)" "used + nrs - rsz"]
  obtain m4 where wr: "(do {
        mi \<leftarrow> set_attr_size (mi\<lparr>mrec := Some m3\<rparr>) a (asize + nrs - rsz);
        mi \<leftarrow> set_attr_nres_evcn mi a (ucast (ucast svcn + plen - 1 :: CLST));
        mi \<leftarrow> set_rec_used mi (used + nrs - rsz);
        Some (0 :: 32 word, mi\<lparr>dirty := True\<rparr>) })
      = Some (0, mi\<lparr>mrec := Some m4, dirty := True\<rparr>)"
    and rd: "rd32 m4 (a + 4) = Some (asize + nrs - rsz)"
      "rd64 m4 (a + 0x18) = Some (ucast (ucast svcn + plen - 1 :: CLST))"
      "rd32 m4 0x18 = Some (used + nrs - rsz)"
    by blast
  have run: "mi_pack_runs run_pack sbi mi a run cnt
      = Some (0, mi\<lparr>mrec := Some m4, dirty := True\<rparr>)"
    using m svcn used asize roff rp contract ok mv1 st mv3 wr
    by (simp add: mi_pack_runs_def Let_def not_less nrs_def rsz_def)
  have "unat rsz \<le> unat used"
    using rs inrec(1) by simp
  then have "rsz \<le> used"
    by (simp add: word_le_nat_alt)
  then have u1: "unat (used - rsz) = unat used - unat rsz"
    by (simp add: unat_sub)
  have "unat (used - rsz) + unat nrs \<le> unat (record_size sbi)"
    using u1 cap inrec(2) \<open>unat rsz \<le> unat used\<close> by (simp add: ds_def)
  moreover have "unat (record_size sbi) < 2 ^ 32"
    using unsigned_less [of "record_size sbi"] by simp
  ultimately have u2: "unat (used - rsz + nrs) = unat used - unat rsz + unat nrs"
    and le: "unat (used - rsz + nrs) \<le> unat (record_size sbi)"
    using unat_add_lem [of "used - rsz" nrs] u1 by simp_all
  have eq: "used + nrs - rsz = used - rsz + nrs"
    by simp
  have "int (unat (used + nrs - rsz)) - int (unat used) = int (unat nrs) - int (unat rsz)"
    using u2 \<open>unat rsz \<le> unat used\<close> unfolding eq by (simp add: of_nat_diff)
  moreover have "used + nrs - rsz \<le> record_size sbi"
    using le unfolding eq by (simp add: word_le_nat_alt)
  ultimately show ?thesis
    using run rd evcn_clst [of svcn plen]
    by (intro exI [of _ "mi\<lparr>mrec := Some m4, dirty := True\<rparr>"] exI [of _ "used + nrs - rsz"])
      (simp add: attr_nres_evcn_def attr_size_def rec_used_def nrs_def rsz_def)
qed

text \<open>1000 clusters are asked for and 5 are packed, into 11 bytes: \<^verbatim>\<open>evcn\<close> becomes 4, the
  run list grows from 8 to 16 bytes, the size from \<^verbatim>\<open>0x48\<close> to \<^verbatim>\<open>0x50\<close> and \<^verbatim>\<open>used\<close> from
  \<^verbatim>\<open>0x80\<close> to \<^verbatim>\<open>0x88\<close>, in a record of \<^verbatim>\<open>0xA0\<close> bytes.\<close>

theorem pack_runs_success_witness:
  "rec_used ex_nres = Some 0x80 \<and> attr_size ex_nres 0x30 = Some 0x48
   \<and> attr_nres_svcn ex_nres 0x30 = Some 0 \<and> attr_nres_run_off ex_nres 0x30 = Some 0x40
   \<and> ex_pack_ok () 0 1000 0x28 = (11, replicate 11 0xAB, 5)
   \<and> map_option fst (mi_pack_runs ex_pack_ok ex_sbi2 ex_nres 0x30 () 1000) = Some 0
   \<and> map_option ((\<lambda>mi. attr_nres_evcn mi 0x30) \<circ> snd)
         (mi_pack_runs ex_pack_ok ex_sbi2 ex_nres 0x30 () 1000) = Some (Some 4)
   \<and> map_option ((\<lambda>mi. attr_size mi 0x30) \<circ> snd)
         (mi_pack_runs ex_pack_ok ex_sbi2 ex_nres 0x30 () 1000) = Some (Some 0x50)
   \<and> map_option (rec_used \<circ> snd) (mi_pack_runs ex_pack_ok ex_sbi2 ex_nres 0x30 () 1000)
       = Some (Some 0x88)
   \<and> map_option (dirty \<circ> snd) (mi_pack_runs ex_pack_ok ex_sbi2 ex_nres 0x30 () 1000)
       = Some True
   \<and> (0x88 :: u32) \<le> record_size ex_sbi2"
proof -
  have rp: "ex_pack_ok () (ucast (0 :: u64)) 1000 (0x48 - ucast (0x40 :: u16)
      + (record_size ex_sbi2 - 0x80)) = (11, replicate 11 0xAB, 5)"
    by (simp add: ex_pack_ok_def)
  have rp': "ex_pack_ok () 0 1000 0x28 = (11, replicate 11 0xAB, 5)"
    by (simp add: ex_pack_ok_def)
  have contract: "length (replicate 11 (0xAB :: u8))
      \<le> unat (0x48 - ucast (0x40 :: u16) + (record_size ex_sbi2 - 0x80))"
    by (simp add: ex_sbi2_def)
  have ok: "0 \<le> sint (11 :: 32 word)"
    by simp
  have fits: "QuadAlign 11 \<le> 0x48 - ucast (0x40 :: u16) + (record_size ex_sbi2 - 0x80)"
    by (simp add: ex_sbi2_def QuadAlign_def)
  from pack_runs_success [where run_pack = ex_pack_ok and run = "()" and cnt = 1000,
      OF ex_nres_fields(1,2,8,3-6,9,10,12) rp contract ok fits]
  obtain mi' used' where
    "mi_pack_runs ex_pack_ok ex_sbi2 ex_nres 0x30 () 1000 = Some (0, mi')"
    "attr_nres_evcn mi' 0x30 = Some (ucast (ucast (0 :: u64) + 5 - 1 :: CLST))"
    "attr_size mi' 0x30 = Some (0x48 + QuadAlign 11 - (0x48 - ucast (0x40 :: u16)))"
    "rec_used mi' = Some used'" "used' = 0x80 + QuadAlign 11 - (0x48 - ucast (0x40 :: u16))"
    "dirty mi'" "used' \<le> record_size ex_sbi2"
    by blast
  with ex_nres_fields(3-6) rp' show ?thesis
    by (simp add: QuadAlign_def)
qed

text \<open>The claim as it is written has \<^verbatim>\<open>evcn = svcn + plen - 1\<close> for the attribute's \<^verbatim>\<open>svcn\<close>,
  a 64-bit field. In the record whose attribute has \<^verbatim>\<open>svcn = 0x100000005\<close>, a record with
  \<^verbatim>\<open>total = record_size\<close> whose attribute the enumerator yields, the serializer is called
  with the first cluster 5 and packs 5 clusters, and \<^verbatim>\<open>evcn\<close> becomes 9, not
  \<^verbatim>\<open>0x100000009\<close>.\<close>

theorem pack_runs_evcn_counterexample:
  "rec_total ex_nres_hi = Some (record_size ex_sbi2)
   \<and> mi_enum_attr ex_nres_hi None = Some (Some 0x30)
   \<and> attr_nres_svcn ex_nres_hi 0x30 = Some 0x100000005
   \<and> ex_pack_ok () 5 1000 0x28 = (11, replicate 11 0xAB, 5)
   \<and> map_option fst (mi_pack_runs ex_pack_ok ex_sbi2 ex_nres_hi 0x30 () 1000) = Some 0
   \<and> map_option (ex_evcn \<circ> snd) (mi_pack_runs ex_pack_ok ex_sbi2 ex_nres_hi 0x30 () 1000)
       = Some (Some 9)
   \<and> (9 :: u64) \<noteq> 0x100000005 + 5 - 1"
  by code_simp

end
